theory Spec2Isabelle
  imports Main "HOL-Library.AList"
begin

section \<open>Plain JavaScript values\<close>

text \<open>
  The values a parsed YAML or JSON document is made of. Numbers are modelled as integers
  (the configuration and the token counts hold nothing else); an object is its list of
  own enumerable properties in insertion order.
\<close>

datatype jsval =
    JUndefined
  | JNull
  | JBool bool
  | JNum int
  | JStr string
  | JArr "jsval list"
  | JObj "(string \<times> jsval) list"

text \<open>What \<^verbatim>\<open>if (v)\<close> and \<^verbatim>\<open>!v\<close> test.\<close>

fun truthy :: "jsval \<Rightarrow> bool" where
  "truthy JUndefined = False"
| "truthy JNull = False"
| "truthy (JBool b) = b"
| "truthy (JNum n) = (n \<noteq> 0)"
| "truthy (JStr s) = (s \<noteq> [])"
| "truthy (JArr xs) = True"
| "truthy (JObj kvs) = True"

text \<open>\<^verbatim>\<open>v[k]\<close> on a plain object; \<^verbatim>\<open>undefined\<close> for an absent key and on a primitive.\<close>

fun get_prop :: "jsval \<Rightarrow> string \<Rightarrow> jsval" where
  "get_prop (JObj kvs) k = (case map_of kvs k of Some v \<Rightarrow> v | None \<Rightarrow> JUndefined)"
| "get_prop _ k = JUndefined"

text \<open>What the code throws: an \<^verbatim>\<open>Error\<close> (or \<^verbatim>\<open>HttpError\<close>) with its message, a
  \<^verbatim>\<open>TypeError\<close> of the runtime, the \<^verbatim>\<open>SyntaxError\<close> of \<^verbatim>\<open>JSON.parse\<close>, the
  \<^verbatim>\<open>ZodError\<close> of a schema's \<^verbatim>\<open>parse\<close>.\<close>

datatype exn = Error string | TypeError | SyntaxError | ZodError

section \<open>Schemas of the zod library, as far as the sources use them\<close>

text \<open>
  A schema is data; \<open>zparse\<close> is the library's \<^verbatim>\<open>safeParse\<close>: the validated value, or
  \<open>None\<close> where \<^verbatim>\<open>parse\<close> throws. \<open>ZObject shape False\<close> is \<^verbatim>\<open>z.object(shape)\<close>, which
  drops unknown keys; \<open>ZObject shape True\<close> is \<^verbatim>\<open>z.object(shape).passthrough()\<close>, which
  keeps them after the keys of the shape. A key of the shape is set in the result when
  the input has it or its parsed value is not \<^verbatim>\<open>undefined\<close>. \<open>ZExternal\<close> stands for a
  schema declared in a file that is not among the sources.
\<close>

datatype zschema =
    ZString
  | ZBoolean
  | ZInt
  | ZLiteral string
  | ZOptional zschema
  | ZNullish zschema
  | ZDefault zschema jsval
  | ZArray zschema
  | ZObject "(string \<times> zschema) list" bool
  | ZExternal "jsval \<Rightarrow> jsval option"

fun sequence :: "'a option list \<Rightarrow> 'a list option" where
  "sequence [] = Some []"
| "sequence (None # _) = None"
| "sequence (Some x # xs) = (case sequence xs of None \<Rightarrow> None | Some ys \<Rightarrow> Some (x # ys))"

fun zparse :: "zschema \<Rightarrow> jsval \<Rightarrow> jsval option" where
  "zparse ZString v = (case v of JStr s \<Rightarrow> Some v | _ \<Rightarrow> None)"
| "zparse ZBoolean v = (case v of JBool b \<Rightarrow> Some v | _ \<Rightarrow> None)"
| "zparse ZInt v = (case v of JNum n \<Rightarrow> Some v | _ \<Rightarrow> None)"
| "zparse (ZLiteral s) v = (if v = JStr s then Some v else None)"
| "zparse (ZOptional z) v = (if v = JUndefined then Some JUndefined else zparse z v)"
| "zparse (ZNullish z) v =
     (if v = JUndefined then Some JUndefined else if v = JNull then Some JNull else zparse z v)"
| "zparse (ZDefault z d) v = (if v = JUndefined then zparse z d else zparse z v)"
| "zparse (ZArray z) v =
     (case v of JArr xs \<Rightarrow> map_option JArr (sequence (map (zparse z) xs)) | _ \<Rightarrow> None)"
| "zparse (ZObject shape passthrough) v =
     (case v of
        JObj kvs \<Rightarrow>
          (case sequence (map (\<lambda>(k, z). map_option (Pair k) (zparse z (get_prop v k))) shape) of
             None \<Rightarrow> None
           | Some parsed \<Rightarrow>
               Some (JObj
                 (filter (\<lambda>(k, r). r \<noteq> JUndefined \<or> k \<in> fst ` set kvs) parsed
                  @ (if passthrough then filter (\<lambda>(k, x). k \<notin> fst ` set shape) kvs else []))))
      | _ \<Rightarrow> None)"
| "zparse (ZExternal f) v = f v"

section \<open>The openai-responses provider (src/lib/providers/openai-responses.ts)\<close>

subsection \<open>Messages of a request\<close>

datatype role = User | Assistant | System | Developer

datatype detail = Auto | Low | High

datatype ResponseInputContent =
    input_text string
  | input_image "string option" detail

datatype message_content = Text string | Parts "ResponseInputContent list"

record ResponseMessage =
  role :: role
  content :: message_content

text \<open>A part of a prompt: text, a file (named by a handle), or anything else.\<close>

datatype PromptPart = text_part string | file_part nat | other_part

record ConversationTurn =
  turn_role :: role
  turn_content :: "PromptPart list"

text \<open>\<^verbatim>\<open>Promise.all\<close> over results that may have thrown: the first failure, or all values.\<close>

fun all_or_first :: "(exn + 'a) list \<Rightarrow> exn + 'a list" where
  "all_or_first [] = Inr []"
| "all_or_first (Inl e # _) = Inl e"
| "all_or_first (Inr x # xs) = (case all_or_first xs of Inl e \<Rightarrow> Inl e | Inr ys \<Rightarrow> Inr (x # ys))"

text \<open>\<^verbatim>\<open>multiPartPromptToResponse\<close>; \<open>fileToBase64\<close> (src/lib/utils/media, not among the
  sources) is a parameter.\<close>

fun multiPartPromptToResponse :: "(nat \<Rightarrow> string) \<Rightarrow> PromptPart \<Rightarrow> exn + ResponseInputContent" where
  "multiPartPromptToResponse fileToBase64 (text_part t) = Inr (input_text t)"
| "multiPartPromptToResponse fileToBase64 (file_part f) = Inr (input_image (Some (fileToBase64 f)) Auto)"
| "multiPartPromptToResponse fileToBase64 other_part = Inl (Error ''Unsupported part type'')"

definition turnToResponse :: "(nat \<Rightarrow> string) \<Rightarrow> ConversationTurn \<Rightarrow> exn + ResponseMessage" where
  "turnToResponse fileToBase64 part =
     (case all_or_first (map (multiPartPromptToResponse fileToBase64) (turn_content part)) of
        Inl e \<Rightarrow> Inl e
      | Inr cs \<Rightarrow>
          (case cs of
             [input_text t] \<Rightarrow> Inr \<lparr>role = turn_role part, content = Text t\<rparr>
           | _ \<Rightarrow> Inr \<lparr>role = turn_role part, content = Parts cs\<rparr>))"

definition conversationToResponses ::
  "(nat \<Rightarrow> string) \<Rightarrow> ConversationTurn list \<Rightarrow> exn + ResponseMessage list" where
  "conversationToResponses fileToBase64 conversation =
     all_or_first (map (turnToResponse fileToBase64) conversation)"

text \<open>\<^verbatim>\<open>mergeMessages(a, b)\<close>: \<^verbatim>\<open>[...a, ...b.filter((m) => m.role !== 'system')]\<close>.\<close>

definition mergeMessages :: "ResponseMessage list \<Rightarrow> ResponseMessage list \<Rightarrow> ResponseMessage list" where
  "mergeMessages a b = a @ filter (\<lambda>m. role m \<noteq> System) b"

text \<open>The first lines of \<^verbatim>\<open>OpenAiResponses.run\<close>: the messages that become the request's
  \<^verbatim>\<open>input\<close>. \<open>session\<close> is \<^verbatim>\<open>context.session?.state\<close>.\<close>

definition run :: "(nat \<Rightarrow> string) \<Rightarrow> ConversationTurn list \<Rightarrow> ResponseMessage list option
    \<Rightarrow> exn + ResponseMessage list" where
  "run fileToBase64 conversation session =
     (let sessionMessages = (case session of None \<Rightarrow> [] | Some st \<Rightarrow> st)
      in case conversationToResponses fileToBase64 conversation of
           Inl e \<Rightarrow> Inl e
         | Inr newMessages \<Rightarrow> Inr (mergeMessages sessionMessages newMessages))"

subsection \<open>The event stream\<close>

definition responseTextDeltaEventSchema :: zschema where
  "responseTextDeltaEventSchema =
     ZObject [(''type'', ZLiteral ''response.output_text.delta''),
              (''delta'', ZDefault (ZNullish ZString) (JStr []))] False"

definition responseRefusalDeltaEventSchema :: zschema where
  "responseRefusalDeltaEventSchema =
     ZObject [(''type'', ZLiteral ''response.refusal.delta''),
              (''delta'', ZDefault (ZNullish ZString) (JStr []))] False"

definition responseSchema :: zschema where
  "responseSchema =
     ZObject
       [(''id'', ZString),
        (''output_text'', ZNullish ZString),
        (''usage'', ZOptional (ZObject
           [(''input_tokens'', ZOptional ZInt),
            (''output_tokens'', ZOptional ZInt),
            (''total_tokens'', ZOptional ZInt)] False)),
        (''output'', ZOptional (ZArray (ZObject
           [(''type'', ZString),
            (''role'', ZOptional ZString),
            (''content'', ZOptional (ZArray (ZObject
               [(''type'', ZString), (''text'', ZOptional ZString)] True)))] True)))] True"

definition responseCompletedEventSchema :: zschema where
  "responseCompletedEventSchema =
     ZObject [(''type'', ZLiteral ''response.completed''), (''response'', responseSchema)] False"

definition responseErrorEventSchema :: zschema where
  "responseErrorEventSchema =
     ZObject [(''type'', ZLiteral ''response.error''),
              (''error'', ZObject [(''message'', ZString)] False)] False"

definition responseFailedEventSchema :: zschema where
  "responseFailedEventSchema =
     ZObject [(''type'', ZLiteral ''response.failed''),
              (''error'', ZOptional (ZObject
                 [(''code'', ZOptional ZString), (''message'', ZOptional ZString)] False)),
              (''reason'', ZOptional ZString)] False"

definition extractDeltaOutput :: "jsval \<Rightarrow> exn + string" where
  "extractDeltaOutput event =
     (case zparse responseTextDeltaEventSchema event of
        None \<Rightarrow> Inl ZodError
      | Some json \<Rightarrow> Inr (case get_prop json ''delta'' of JStr s \<Rightarrow> s | _ \<Rightarrow> []))"

definition extractRefusalDelta :: "jsval \<Rightarrow> exn + string" where
  "extractRefusalDelta event =
     (case zparse responseRefusalDeltaEventSchema event of
        None \<Rightarrow> Inl ZodError
      | Some json \<Rightarrow> Inr (case get_prop json ''delta'' of JStr s \<Rightarrow> s | _ \<Rightarrow> []))"

text \<open>The message of a \<^verbatim>\<open>response.failed\<close> event:
  \<^verbatim>\<open>failed.error?.message ?? failed.reason ?? 'Unknown error'\<close>.\<close>

definition failedMessage :: "jsval \<Rightarrow> string" where
  "failedMessage failed =
     (case get_prop (get_prop failed ''error'') ''message'' of
        JStr m \<Rightarrow> m
      | _ \<Rightarrow> (case get_prop failed ''reason'' of JStr r \<Rightarrow> r | _ \<Rightarrow> ''Unknown error''))"

text \<open>
  The \<^verbatim>\<open>for await\<close> loop of \<^verbatim>\<open>runModel\<close> over a stream that ends. An item of the stream
  is what \<^verbatim>\<open>JSON.parse\<close> makes of one event's data: a value, or \<open>None\<close> where it throws.
  The loop carries \<^verbatim>\<open>fullText\<close>, \<^verbatim>\<open>finalResponseJson\<close> and the chunks yielded so far; it
  ends with the first exception, or with the two variables at the end of the stream.
\<close>

fun stream_loop :: "jsval option list \<Rightarrow> string \<Rightarrow> jsval \<Rightarrow> string list
    \<Rightarrow> string list \<times> (exn + string \<times> jsval)" where
  "stream_loop [] fullText finalResponseJson ys = (ys, Inr (fullText, finalResponseJson))"
| "stream_loop (None # rest) fullText finalResponseJson ys = (ys, Inl SyntaxError)"
| "stream_loop (Some json # rest) fullText finalResponseJson ys =
     (let ty = get_prop json ''type'' in
      if ty = JStr ''response.output_text.delta'' then
        (case extractDeltaOutput json of
           Inl e \<Rightarrow> (ys, Inl e)
         | Inr text \<Rightarrow> stream_loop rest (fullText @ text) finalResponseJson (ys @ [text]))
      else if ty = JStr ''response.refusal.delta'' then
        (case extractRefusalDelta json of
           Inl e \<Rightarrow> (ys, Inl e)
         | Inr text \<Rightarrow> stream_loop rest (fullText @ text) finalResponseJson (ys @ [text]))
      else if ty = JStr ''response.completed'' then
        (case zparse responseCompletedEventSchema json of
           None \<Rightarrow> (ys, Inl ZodError)
         | Some completed \<Rightarrow> stream_loop rest fullText (get_prop completed ''response'') ys)
      else if ty = JStr ''response.error'' then
        (case zparse responseErrorEventSchema json of
           None \<Rightarrow> (ys, Inl ZodError)
         | Some err \<Rightarrow>
             (ys, Inl (Error (''Failed to run model: '' @
                (case get_prop (get_prop err ''error'') ''message'' of JStr m \<Rightarrow> m | _ \<Rightarrow> [])))))
      else if ty = JStr ''response.failed'' then
        (case zparse responseFailedEventSchema json of
           None \<Rightarrow> (ys, Inl ZodError)
         | Some failed \<Rightarrow> (ys, Inl (Error (''Failed to run model: '' @ failedMessage failed))))
      else stream_loop rest fullText finalResponseJson ys)"

record RunResult =
  response :: jsval
  session_state :: "ResponseMessage list"

text \<open>
  \<^verbatim>\<open>runModel\<close>: the chunks it yields and what it returns or throws. \<open>fetched\<close> is the
  outcome of the request under \<^verbatim>\<open>exponentialBackoff\<close>: the error it ends with, or the
  response, whose body is a stream or missing.
\<close>

definition runModel :: "ResponseMessage list \<Rightarrow> exn + jsval option list option
    \<Rightarrow> string list \<times> (exn + RunResult)" where
  "runModel messages fetched =
     (case fetched of
        Inl e \<Rightarrow> ([[]], Inl e)
      | Inr None \<Rightarrow> ([[]], Inl (Error ''Failed to run model: no response''))
      | Inr (Some stream) \<Rightarrow>
          (case stream_loop stream [] JUndefined [[]] of
             (ys, Inl e) \<Rightarrow> (ys, Inl e)
           | (ys, Inr (fullText, finalResponseJson)) \<Rightarrow>
               if \<not> truthy finalResponseJson then
                 (ys, Inl (Error ''Failed to run model: missing completion''))
               else
                 (case zparse responseSchema finalResponseJson of
                    None \<Rightarrow> (ys, Inl ZodError)
                  | Some parsed \<Rightarrow>
                      (let messageContent =
                             (case get_prop parsed ''output_text'' of JStr s \<Rightarrow> s | _ \<Rightarrow> fullText);
                           message = \<lparr>role = Assistant, content = Text messageContent\<rparr>
                       in (ys, Inr \<lparr>response = parsed, session_state = messages @ [message]\<rparr>)))))"

text \<open>An item of the stream that the loop takes for a \<^verbatim>\<open>response.completed\<close> event.\<close>

definition is_completed :: "jsval option \<Rightarrow> bool" where
  "is_completed item =
     (case item of None \<Rightarrow> False | Some json \<Rightarrow> get_prop json ''type'' = JStr ''response.completed'')"

section \<open>The run orchestrator (src/lib/state/actions.ts, among the unnamed sources)\<close>

subsection \<open>Deep equality of two configurations\<close>

text \<open>\<^verbatim>\<open>String(i)\<close> for an array index.\<close>

definition digit_char :: "nat \<Rightarrow> char" where
  "digit_char n = ''0123456789'' ! n"

fun string_of_nat :: "nat \<Rightarrow> string" where
  "string_of_nat n =
     (if n < 10 then [digit_char n] else string_of_nat (n div 10) @ [digit_char (n mod 10)])"

declare string_of_nat.simps [simp del]

fun typeof :: "jsval \<Rightarrow> string" where
  "typeof JUndefined = ''undefined''"
| "typeof JNull = ''object''"
| "typeof (JBool b) = ''boolean''"
| "typeof (JNum n) = ''number''"
| "typeof (JStr s) = ''string''"
| "typeof (JArr xs) = ''object''"
| "typeof (JObj kvs) = ''object''"

text \<open>
  \<^verbatim>\<open>a === b\<close> for two values that share no object: primitives compare by value, and an
  object or array is identical to none in the other structure.
\<close>

fun strict_eq :: "jsval \<Rightarrow> jsval \<Rightarrow> bool" where
  "strict_eq JUndefined JUndefined = True"
| "strict_eq JNull JNull = True"
| "strict_eq (JBool a) (JBool b) = (a = b)"
| "strict_eq (JNum a) (JNum b) = (a = b)"
| "strict_eq (JStr a) (JStr b) = (a = b)"
| "strict_eq _ _ = False"

text \<open>The own enumerable properties of a value: of an array, its indices as strings.\<close>

fun entries :: "jsval \<Rightarrow> (string \<times> jsval) list" where
  "entries (JObj kvs) = kvs"
| "entries (JArr xs) = zip (map string_of_nat [0..<length xs]) xs"
| "entries _ = []"

text \<open>\<^verbatim>\<open>Object.keys(v)\<close> and \<^verbatim>\<open>v[key]\<close> for an object or an array.\<close>

definition keys :: "jsval \<Rightarrow> string list" where
  "keys v = map fst (entries v)"

definition js_get :: "jsval \<Rightarrow> string \<Rightarrow> jsval" where
  "js_get v k = (case map_of (entries v) k of Some x \<Rightarrow> x | None \<Rightarrow> JUndefined)"

definition entries_size :: "(string \<times> jsval) list \<Rightarrow> nat" where
  "entries_size es = sum_list (map (\<lambda>(k, v). Suc (size v)) es)"

lemma entries_size_zip: "length ks = length xs \<Longrightarrow> entries_size (zip ks xs) = size_list size xs"
  by (induction ks xs rule: list_induct2) (auto simp: entries_size_def)

lemma entries_size_obj: "entries_size kvs \<le> size_list (size_prod (\<lambda>_. 0) size) kvs"
  by (induction kvs) (auto simp: entries_size_def)

lemma entries_size_le: "entries_size (entries a) \<le> size a"
proof (cases a)
  case (JArr xs)
  then show ?thesis by (simp add: entries_size_zip)
next
  case (JObj kvs)
  then show ?thesis using entries_size_obj[of kvs] by simp
qed (simp_all add: entries_size_def)

text \<open>
  \<^verbatim>\<open>deepEquals(a, b)\<close>; \<open>deepEquals_loop\<close> is its \<^verbatim>\<open>for (const key of keysA)\<close>, over the
  properties of \<open>a\<close> that are left. \<^verbatim>\<open>Object.keys(null)\<close> throws a \<^verbatim>\<open>TypeError\<close>.
\<close>

function deepEquals :: "jsval \<Rightarrow> jsval \<Rightarrow> exn + bool"
  and deepEquals_loop :: "(string \<times> jsval) list \<Rightarrow> jsval \<Rightarrow> exn + bool" where
  "deepEquals a b =
     (if strict_eq a b then Inr True
      else if typeof a \<noteq> typeof b then Inr False
      else if typeof a \<noteq> ''object'' \<or> a = JNull then Inr False
      else if b = JNull then Inl TypeError
      else if length (keys a) \<noteq> length (keys b) then Inr False
      else deepEquals_loop (entries a) b)"
| "deepEquals_loop [] b = Inr True"
| "deepEquals_loop ((key, va) # rest) b =
     (if key \<notin> set (keys b) then Inr False
      else case deepEquals va (js_get b key) of
             Inl e \<Rightarrow> Inl e
           | Inr False \<Rightarrow> Inr False
           | Inr True \<Rightarrow> deepEquals_loop rest b)"
  by pat_completeness auto
termination
proof (relation "measure (\<lambda>x. case x of Inl (a, b) \<Rightarrow> 2 * size a + 1 | Inr (es, b) \<Rightarrow> 2 * entries_size es)")
  fix a b :: jsval
  show "(Inr (entries a, b), Inl (a, b))
        \<in> measure (\<lambda>x. case x of Inl (a, b) \<Rightarrow> 2 * size a + 1 | Inr (es, b) \<Rightarrow> 2 * entries_size es)"
    using entries_size_le[of a] by simp
qed (simp_all add: entries_size_def)

declare deepEquals.simps(1) [simp del]

text \<open>A plain value: every object in it has each of its keys once. \<open>digit_val\<close> reads a
  decimal digit back.\<close>

fun plain :: "jsval \<Rightarrow> bool" where
  "plain (JArr xs) = (\<forall>x \<in> set xs. plain x)"
| "plain (JObj kvs) = (distinct (map fst kvs) \<and> (\<forall>kv \<in> set kvs. plain (snd kv)))"
| "plain _ = True"

definition digit_val :: "char \<Rightarrow> nat" where
  "digit_val c = of_char c - 48"

subsection \<open>Configuration, results and the run record\<close>

record AssertionSpec =
  atype :: string
  avars :: jsval

record TestCase =
  tc_vars :: "(string \<times> jsval) list option"
  tc_assert :: "AssertionSpec list option"
  tc_description :: "string option"

text \<open>A provider of the configuration: an id, or \<^verbatim>\<open>{id, prompts?}\<close>. A prompt is its template.\<close>

datatype Provider = ProviderId string | ProviderObj string "string list option"

record Config =
  cfg_description :: "string option"
  cfg_prompts :: "string list option"
  cfg_providers :: "Provider list option"
  cfg_tests :: "TestCase list option"
  cfg_defaultTest :: "TestCase option"

datatype OutputPart = StringPart string | BlobPart nat

datatype OutputValue = OutputString string | OutputParts "OutputPart list"

record TokenUsage =
  inputTokens :: "int option"
  outputTokens :: "int option"
  totalTokens :: "int option"

text \<open>The field \<^verbatim>\<open>output\<close> is \<open>out_value\<close> here.\<close>

record TestOutput =
  error :: "string option"
  out_value :: "OutputValue option"
  latencyMillis :: "nat option"
  tokenUsage :: "TokenUsage option"

record AssertionResult =
  ar_pass :: bool
  ar_message :: "string option"

record TestResult = TestOutput +
  pass :: bool
  assertionResults :: "AssertionResult list"

record Run =
  run_version :: nat
  run_id :: string
  run_timestamp :: nat
  run_description :: "string option"
  run_envs :: "(Provider \<times> string) list"
  run_tests :: "TestCase list"
  run_results :: "TestResult list list"

text \<open>The configuration as the plain value \<^verbatim>\<open>deepEquals\<close> walks: a field that is not set
  is no key of the object.\<close>

definition opt_field :: "string \<Rightarrow> ('a \<Rightarrow> jsval) \<Rightarrow> 'a option \<Rightarrow> (string \<times> jsval) list" where
  "opt_field k f x = (case x of None \<Rightarrow> [] | Some y \<Rightarrow> [(k, f y)])"

definition spec_js :: "AssertionSpec \<Rightarrow> jsval" where
  "spec_js a = JObj [(''type'', JStr (atype a)), (''vars'', avars a)]"

definition testcase_js :: "TestCase \<Rightarrow> jsval" where
  "testcase_js tc =
     JObj (opt_field ''vars'' JObj (tc_vars tc)
           @ opt_field ''assert'' (\<lambda>as. JArr (map spec_js as)) (tc_assert tc)
           @ opt_field ''description'' JStr (tc_description tc))"

fun provider_js :: "Provider \<Rightarrow> jsval" where
  "provider_js (ProviderId s) = JStr s"
| "provider_js (ProviderObj i ps) =
     JObj ((''id'', JStr i) # opt_field ''prompts'' (\<lambda>ps. JArr (map JStr ps)) ps)"

definition config_js :: "Config \<Rightarrow> jsval" where
  "config_js c =
     JObj (opt_field ''description'' JStr (cfg_description c)
           @ opt_field ''prompts'' (\<lambda>ps. JArr (map JStr ps)) (cfg_prompts c)
           @ opt_field ''providers'' (\<lambda>ps. JArr (map provider_js ps)) (cfg_providers c)
           @ opt_field ''tests'' (\<lambda>ts. JArr (map testcase_js ts)) (cfg_tests c)
           @ opt_field ''defaultTest'' testcase_js (cfg_defaultTest c))"

subsection \<open>Defaults merged into the tests\<close>

text \<open>\<^verbatim>\<open>{...a, ...b}\<close>: the properties of \<open>b\<close> assigned one by one onto a copy of \<open>a\<close>.\<close>

definition spread :: "(string \<times> 'v) list \<Rightarrow> (string \<times> 'v) list \<Rightarrow> (string \<times> 'v) list" where
  "spread a b = fold (\<lambda>(k, v). AList.update k v) b a"

text \<open>\<^verbatim>\<open>test.vars ?? {}\<close> and \<^verbatim>\<open>test.assert ?? []\<close>.\<close>

definition vars_of :: "TestCase \<Rightarrow> (string \<times> jsval) list" where
  "vars_of test = (case tc_vars test of None \<Rightarrow> [] | Some vs \<Rightarrow> vs)"

definition assert_of :: "TestCase \<Rightarrow> AssertionSpec list" where
  "assert_of test = (case tc_assert test of None \<Rightarrow> [] | Some as \<Rightarrow> as)"

text \<open>The object literal that \<^verbatim>\<open>globalTests.map\<close> builds from \<^verbatim>\<open>config.defaultTest\<close> and a
  test.\<close>

definition mergeTest :: "TestCase \<Rightarrow> TestCase \<Rightarrow> TestCase" where
  "mergeTest defaultTest test =
     \<lparr>tc_vars = Some (spread (vars_of defaultTest) (vars_of test)),
      tc_assert = Some (assert_of defaultTest @ assert_of test),
      tc_description =
        (case tc_description test of Some d \<Rightarrow> Some d | None \<Rightarrow> tc_description defaultTest)\<rparr>"

definition tests_of :: "Config \<Rightarrow> TestCase list" where
  "tests_of config = (case cfg_tests config of None \<Rightarrow> [] | Some ts \<Rightarrow> ts)"

definition globalTests :: "Config \<Rightarrow> TestCase list" where
  "globalTests config =
     (case cfg_defaultTest config of
        None \<Rightarrow> tests_of config
      | Some defaultTest \<Rightarrow> map (mergeTest defaultTest) (tests_of config))"

subsection \<open>Environments\<close>

text \<open>
  What a run does that can be observed, in the order it happens: \<open>t\<close> and \<open>e\<close> are the
  index of a test and of an environment, \<open>j\<close> the index of an assertion in the test's list.
\<close>

datatype event =
    ConfigFetched
  | Prompted
  | ProviderRequested string
  | Enqueued nat nat
  | EnvSettled nat nat
  | AssertionRun nat nat nat "OutputValue option"
  | QueueCompleted
  | ManagerDestroyed
  | RunStored string
  | RunPersisted string

text \<open>
  The collaborators of \<^verbatim>\<open>runTests\<close> that are not among the sources, as parameters:
  \<open>getProvider\<close> is \<^verbatim>\<open>ProviderManager.getProvider\<close>, which may throw; \<open>env_run\<close> is
  \<^verbatim>\<open>SimpleEnvironment.run\<close> of the environment made of a model and a prompt, which returns
  a test output (an error is a field of it); \<open>getAssertion\<close> is
  \<^verbatim>\<open>AssertionManager.getAssertion\<close>, which may throw, and the assertion it returns maps
  an output to an assertion result; \<open>randomUUID\<close> and \<open>now\<close> are \<^verbatim>\<open>crypto.randomUUID()\<close> and
  \<^verbatim>\<open>Date.now()\<close>; \<open>answer\<close> is what the user answers when asked whether to update the
  configuration.
\<close>

record 'm world =
  getProvider :: "string \<Rightarrow> exn + 'm"
  env_run :: "'m \<Rightarrow> string \<Rightarrow> (string \<times> jsval) list \<Rightarrow> TestOutput"
  getAssertion :: "AssertionSpec \<Rightarrow> (string \<times> jsval) list \<Rightarrow> exn + (OutputValue option \<Rightarrow> AssertionResult)"
  randomUUID :: string
  now :: nat
  answer :: bool

record Storage =
  getConfig :: Config

fun provider_id :: "Provider \<Rightarrow> string" where
  "provider_id (ProviderId s) = s"
| "provider_id (ProviderObj i ps) = i"

text \<open>\<^verbatim>\<open>typeof provider === 'object' && provider.prompts ? provider.prompts : globalPrompts\<close>\<close>

fun provider_prompts :: "string list \<Rightarrow> Provider \<Rightarrow> string list" where
  "provider_prompts globalPrompts (ProviderObj i (Some ps)) = ps"
| "provider_prompts globalPrompts _ = globalPrompts"

text \<open>The loop over \<^verbatim>\<open>globalProviders\<close>: the environments (a model with a prompt) and the
  pairs recorded in the run, in the order they are pushed.\<close>

fun createEnvs :: "(string \<Rightarrow> exn + 'm) \<Rightarrow> string list \<Rightarrow> Provider list
    \<Rightarrow> event list \<times> (exn + ('m \<times> string) list \<times> (Provider \<times> string) list)" where
  "createEnvs gp globalPrompts [] = ([], Inr ([], []))"
| "createEnvs gp globalPrompts (provider # rest) =
     (case gp (provider_id provider) of
        Inl ex \<Rightarrow> ([ProviderRequested (provider_id provider)], Inl ex)
      | Inr model \<Rightarrow>
          (let prompts = provider_prompts globalPrompts provider in
           case createEnvs gp globalPrompts rest of
             (evs, Inl ex) \<Rightarrow> (ProviderRequested (provider_id provider) # evs, Inl ex)
           | (evs, Inr (envs, runEnvs)) \<Rightarrow>
               (ProviderRequested (provider_id provider) # evs,
                Inr (map (Pair model) prompts @ envs, map (Pair provider) prompts @ runEnvs))))"

subsection \<open>One cell\<close>

text \<open>\<^verbatim>\<open>if (output.error)\<close>: the field is set and is not the empty string.\<close>

definition has_error :: "'a TestOutput_scheme \<Rightarrow> bool" where
  "has_error out = (case error out of None \<Rightarrow> False | Some msg \<Rightarrow> msg \<noteq> [])"

text \<open>\<^verbatim>\<open>for (const [key, value] of Object.entries(output)) result[key] = value\<close>\<close>

definition copy_entries :: "TestOutput \<Rightarrow> TestResult \<Rightarrow> TestResult" where
  "copy_entries out result =
     result\<lparr>error := (case error out of None \<Rightarrow> error result | Some x \<Rightarrow> Some x),
            out_value := (case out_value out of None \<Rightarrow> out_value result | Some x \<Rightarrow> Some x),
            latencyMillis := (case latencyMillis out of None \<Rightarrow> latencyMillis result | Some x \<Rightarrow> Some x),
            tokenUsage := (case tokenUsage out of None \<Rightarrow> tokenUsage result | Some x \<Rightarrow> Some x)\<rparr>"

text \<open>\<^verbatim>\<open>const result: TestResult = { pass: false, assertionResults: [] }\<close>\<close>

definition new_result :: TestResult where
  "new_result =
     \<lparr>error = None, out_value = None, latencyMillis = None, tokenUsage = None,
      pass = False, assertionResults = []\<rparr>"

text \<open>
  The unit of work enqueued for the cell of test \<open>t\<close> and environment \<open>e\<close>, run to its
  end: \<open>out\<close> is what \<^verbatim>\<open>env.run\<close> returned. The result is what the unit did and the cell
  it leaves.
\<close>

definition unit_of_work :: "nat \<Rightarrow> nat \<Rightarrow> TestOutput \<Rightarrow> (OutputValue option \<Rightarrow> AssertionResult) list
    \<Rightarrow> TestResult \<Rightarrow> event list \<times> TestResult" where
  "unit_of_work t e out assertions result0 =
     (let result = copy_entries out result0 in
      if has_error out then ([EnvSettled t e], result\<lparr>pass := False\<rparr>)
      else
        (let rs = map (\<lambda>assertion. assertion (out_value out)) assertions in
         (EnvSettled t e # map (\<lambda>j. AssertionRun t e j (out_value out)) [0..<length assertions],
          result\<lparr>pass := list_all ar_pass rs, assertionResults := rs\<rparr>)))"

subsection \<open>The whole run\<close>

text \<open>
  The two nested loops of \<^verbatim>\<open>runTests\<close>. For every cell the assertions are built (which
  may throw) and the unit is enqueued; a unit is kept as what it does once the queue runs
  it. The events are those of the loops themselves.
\<close>

fun enqueue_row :: "'m world \<Rightarrow> nat \<Rightarrow> TestCase \<Rightarrow> nat \<Rightarrow> ('m \<times> string) list
    \<Rightarrow> event list \<times> (exn + (event list \<times> TestResult) list)" where
  "enqueue_row w t test e [] = ([], Inr [])"
| "enqueue_row w t test e (env # envs) =
     (case all_or_first (map (\<lambda>a. getAssertion w a (vars_of test)) (assert_of test)) of
        Inl ex \<Rightarrow> ([], Inl ex)
      | Inr assertions \<Rightarrow>
          (case enqueue_row w t test (Suc e) envs of
             (evs, Inl ex) \<Rightarrow> (Enqueued t e # evs, Inl ex)
           | (evs, Inr units) \<Rightarrow>
               (Enqueued t e # evs,
                Inr (unit_of_work t e (env_run w (fst env) (snd env) (vars_of test)) assertions
                       new_result # units))))"

fun enqueue_tests :: "'m world \<Rightarrow> nat \<Rightarrow> TestCase list \<Rightarrow> ('m \<times> string) list
    \<Rightarrow> event list \<times> (exn + (event list \<times> TestResult) list list)" where
  "enqueue_tests w t [] envs = ([], Inr [])"
| "enqueue_tests w t (test # tests) envs =
     (case enqueue_row w t test 0 envs of
        (evs, Inl ex) \<Rightarrow> (evs, Inl ex)
      | (evs, Inr row) \<Rightarrow>
          (case enqueue_tests w (Suc t) tests envs of
             (evs', Inl ex) \<Rightarrow> (evs @ evs', Inl ex)
           | (evs', Inr rows) \<Rightarrow> (evs @ evs', Inr (row # rows))))"

text \<open>
  \<^verbatim>\<open>runTests\<close> from the creation of the provider manager on, with the configuration it
  has settled on. The queue is modelled by one of the schedules it admits: the units run
  one after the other in the order they were enqueued, each to its end, after the loops
  that enqueue them. The cells do not depend on the schedule, since every unit writes its
  own cell only. The result is the trace of this part of the run and the run record, or
  what was thrown.
\<close>

definition run_config :: "'m world \<Rightarrow> Config \<Rightarrow> event list \<times> (exn + Run)" where
  "run_config w config =
     (let globalPrompts = (case cfg_prompts config of None \<Rightarrow> [] | Some ps \<Rightarrow> ps);
          globalProviders = (case cfg_providers config of None \<Rightarrow> [] | Some ps \<Rightarrow> ps);
          tests = globalTests config
      in case createEnvs (getProvider w) globalPrompts globalProviders of
        (evs1, Inl ex) \<Rightarrow> (evs1, Inl ex)
      | (evs1, Inr (envs, runEnvs)) \<Rightarrow>
     (case enqueue_tests w 0 tests envs of
        (evs2, Inl ex) \<Rightarrow> (evs1 @ evs2, Inl ex)
      | (evs2, Inr units) \<Rightarrow>
          (evs1 @ evs2 @ concat (map (\<lambda>row. concat (map fst row)) units)
             @ [QueueCompleted, ManagerDestroyed, RunStored (randomUUID w), RunPersisted (randomUUID w)],
           Inr \<lparr>run_version = 1, run_id = randomUUID w, run_timestamp = now w,
                run_description = cfg_description config, run_envs = runEnvs,
                run_tests = tests, run_results = map (map snd) units\<rparr>)))"

text \<open>
  \<^verbatim>\<open>runTests\<close>, from the two stores: the two checks, then the comparison of the loaded
  configuration with the stored one, which the user is asked about when they differ.
\<close>

definition runTests :: "'m world \<Rightarrow> Config option \<Rightarrow> Storage option \<Rightarrow> event list \<times> (exn + Run)" where
  "runTests w configStore storageStore =
     (case configStore of
        None \<Rightarrow> ([], Inl (Error ''Cannot call runTests without a config''))
      | Some config0 \<Rightarrow>
     (case storageStore of
        None \<Rightarrow> ([], Inl (Error ''Cannot call runTests without a storage''))
      | Some storage \<Rightarrow>
     (let latestConfig = getConfig storage in
      case deepEquals (config_js config0) (config_js latestConfig) of
        Inl ex \<Rightarrow> ([ConfigFetched], Inl ex)
      | Inr same \<Rightarrow>
          (let asked = (if same then [] else [Prompted]);
               config = (if \<not> same \<and> answer w then latestConfig else config0)
           in case run_config w config of (evs, r) \<Rightarrow> (ConfigFetched # asked @ evs, r)))))"

text \<open>The assertions of a test, where \<^verbatim>\<open>getAssertion\<close> throws for none of them, and the
  unit of a cell with them.\<close>

definition the_assertions :: "'m world \<Rightarrow> TestCase \<Rightarrow> (OutputValue option \<Rightarrow> AssertionResult) list" where
  "the_assertions w test =
     (case all_or_first (map (\<lambda>a. getAssertion w a (vars_of test)) (assert_of test)) of
        Inl ex \<Rightarrow> []
      | Inr assertions \<Rightarrow> assertions)"

definition cell_unit :: "'m world \<Rightarrow> nat \<Rightarrow> TestCase \<Rightarrow> nat \<Rightarrow> 'm \<times> string \<Rightarrow> event list \<times> TestResult" where
  "cell_unit w t test e env =
     unit_of_work t e (env_run w (fst env) (snd env) (vars_of test)) (the_assertions w test) new_result"

definition rows_of :: "'m world \<Rightarrow> TestCase list \<Rightarrow> ('m \<times> string) list \<Rightarrow> (event list \<times> TestResult) list list" where
  "rows_of w tests envs =
     map (\<lambda>(t, test). map (\<lambda>(e, env). cell_unit w t test e env) (List.enumerate 0 envs))
       (List.enumerate 0 tests)"

text \<open>The events of a run before the queue runs a unit.\<close>

definition setup_event :: "event \<Rightarrow> bool" where
  "setup_event ev =
     (case ev of ConfigFetched \<Rightarrow> True | Prompted \<Rightarrow> True | ProviderRequested i \<Rightarrow> True
      | Enqueued t e \<Rightarrow> True | _ \<Rightarrow> False)"

section \<open>The consistency row assertion (src/lib/assertions/consistency.ts)\<close>

text \<open>
  \<^verbatim>\<open>argsSchema\<close>; \<open>providerSchema\<close> is declared in src/lib/types, which is not among the
  sources, and is a parameter.
\<close>

definition argsSchema :: "zschema \<Rightarrow> zschema" where
  "argsSchema providerSchema =
     ZObject [(''criteria'', ZString),
              (''prompt'', ZOptional ZString),
              (''provider'', ZOptional providerSchema)] False"

text \<open>
  What the assertion keeps of its construction: the environment (a model with the
  template of the rubric prompt), the criteria and the variables of the test.
\<close>

record 'm ConsistencyAssertion =
  ca_model :: 'm
  ca_prompt :: string
  ca_criteria :: string
  ca_testVars :: "(string \<times> jsval) list"

text \<open>A call of the provider manager's \<^verbatim>\<open>getProvider\<close>, the only way to a model.\<close>

datatype manager_call = GetProvider string jsval

text \<open>
  \<^verbatim>\<open>createConsistencyAssertion\<close>: the calls of the provider manager it makes, and the
  assertion or what is thrown.
  \<open>providerManager\<close> is the provider manager's \<^verbatim>\<open>getProvider\<close>, with an id and a configuration; the two
  constants of src/lib/prompts are parameters.
\<close>

definition createConsistencyAssertion ::
  "zschema \<Rightarrow> string \<Rightarrow> string \<Rightarrow> (string \<Rightarrow> jsval \<Rightarrow> exn + 'm) \<Rightarrow> jsval \<Rightarrow> (string \<times> jsval) list
    \<Rightarrow> manager_call list \<times> (exn + 'm ConsistencyAssertion)" where
  "createConsistencyAssertion providerSchema CONSISTENCY_PROMPT DEFAULT_LLM_ASSERTION_PROVIDER
       providerManager args testVars =
     (case zparse (argsSchema providerSchema) args of
        None \<Rightarrow> ([], Inl (Error ''Invalid LLM Rubric arguments''))
      | Some parsed \<Rightarrow>
          (let criteria = (case get_prop parsed ''criteria'' of JStr c \<Rightarrow> c | _ \<Rightarrow> []);
               prompt = get_prop parsed ''prompt'';
               providerOptions = get_prop parsed ''provider'';
               provider =
                 (case providerOptions of
                    JStr i \<Rightarrow> (i, JObj [])
                  | JUndefined \<Rightarrow> (DEFAULT_LLM_ASSERTION_PROVIDER, JObj [])
                  | JNull \<Rightarrow> (DEFAULT_LLM_ASSERTION_PROVIDER, JObj [])
                  | _ \<Rightarrow> ((case get_prop providerOptions ''id'' of JStr i \<Rightarrow> i | _ \<Rightarrow> []),
                          get_prop providerOptions ''config''))
           in case providerManager (fst provider) (snd provider) of
                Inl ex \<Rightarrow> ([GetProvider (fst provider) (snd provider)], Inl ex)
              | Inr model \<Rightarrow>
                  ([GetProvider (fst provider) (snd provider)],
                   Inr \<lparr>ca_model = model,
                        ca_prompt = (case prompt of JStr p \<Rightarrow> p | _ \<Rightarrow> CONSISTENCY_PROMPT),
                        ca_criteria = criteria,
                        ca_testVars = testVars\<rparr>)))"

text \<open>A variable handed to the rubric environment: a plain value, or the outputs of the
  row.\<close>

datatype env_var = Json jsval | Outputs "OutputPart list list"

text \<open>The \<^verbatim>\<open>results.map\<close> at the start of the assertion's \<^verbatim>\<open>run\<close>, for one entry:
  \<^verbatim>\<open>!r.output\<close> holds for a missing output and for the empty string.\<close>

fun output_parts :: "OutputValue option \<Rightarrow> OutputPart list" where
  "output_parts None = []"
| "output_parts (Some (OutputString s)) = (if s = [] then [] else [StringPart s])"
| "output_parts (Some (OutputParts ps)) = ps"

text \<open>\<^verbatim>\<open>strings.join(' ')\<close>\<close>

fun join_space :: "string list \<Rightarrow> string" where
  "join_space [] = []"
| "join_space [s] = s"
| "join_space (s # t # ss) = s @ '' '' @ join_space (t # ss)"

fun part_string :: "OutputPart \<Rightarrow> string option" where
  "part_string (StringPart s) = Some s"
| "part_string (BlobPart b) = None"

text \<open>\<^verbatim>\<open>extractOutputAsString\<close>: \<open>None\<close> is \<^verbatim>\<open>undefined\<close>.\<close>

fun extractOutputAsString :: "OutputValue option \<Rightarrow> string option" where
  "extractOutputAsString None = None"
| "extractOutputAsString (Some (OutputString s)) = (if s = [] then None else Some s)"
| "extractOutputAsString (Some (OutputParts ps)) =
     (let strings = List.map_filter part_string ps
      in if length strings = 0 then None else Some (join_space strings))"

text \<open>
  The generator that \<^verbatim>\<open>env.run\<close> returns: it yields a chunk and goes on, returns the
  test output, or throws. It need not come to an end.
\<close>

codatatype generator = Return TestOutput | Yield string generator | Throw exn

text \<open>The loop \<^verbatim>\<open>while (!next?.done) next = await generator.next()\<close>: the value the
  generator returns or the exception it throws, \<open>None\<close> when it yields for ever.\<close>

partial_function (option) drain :: "generator \<Rightarrow> (exn + TestOutput) option" where
  "drain g =
     (case g of
        Return result \<Rightarrow> Some (Inr result)
      | Yield chunk g' \<Rightarrow> drain g'
      | Throw ex \<Rightarrow> Some (Inl ex))"

text \<open>
  The end of the assertion's \<^verbatim>\<open>run\<close>, from the result of the rubric environment:
  \<open>n\<close> is \<^verbatim>\<open>results.length\<close>. \<open>extractAllJsonObjects\<close> (src/lib/utils/extractAllJson) and
  the parse of \<open>assertionResultSchema\<close> (src/lib/types) are not among the sources and are
  parameters; \<^verbatim>\<open>objs[0]\<close> of an empty array is \<^verbatim>\<open>undefined\<close>.
\<close>

definition rubric_verdict ::
  "(string \<Rightarrow> jsval list) \<Rightarrow> (jsval \<Rightarrow> AssertionResult option) \<Rightarrow> TestOutput \<Rightarrow> nat
    \<Rightarrow> AssertionResult list" where
  "rubric_verdict extractAllJsonObjects assertionResultSchema result n =
     (case extractOutputAsString (out_value result) of
        None \<Rightarrow>
          replicate n
            \<lparr>ar_pass = False,
             ar_message = Some (''Rubric did not succeed: '' @
               (case error result of None \<Rightarrow> ''No error message'' | Some msg \<Rightarrow> msg))\<rparr>
      | Some rubricOutput \<Rightarrow>
          (if rubricOutput = [] then
             replicate n
               \<lparr>ar_pass = False,
                ar_message = Some (''Rubric did not succeed: '' @
                  (case error result of None \<Rightarrow> ''No error message'' | Some msg \<Rightarrow> msg))\<rparr>
           else
             (let objs = extractAllJsonObjects rubricOutput in
              case assertionResultSchema (case objs of [] \<Rightarrow> JUndefined | obj # _ \<Rightarrow> obj) of
                Some validated \<Rightarrow> replicate n validated
              | None \<Rightarrow>
                  replicate n
                    \<lparr>ar_pass = False,
                     ar_message = Some (''Invalid rubric output: '' @ [CHR 0x22] @ rubricOutput
                                         @ [CHR 0x22])\<rparr>)))"

text \<open>The \<^verbatim>\<open>results.map\<close> at the start of the assertion's \<^verbatim>\<open>run\<close>, and the variables
  \<^verbatim>\<open>{ output, criteria, ...testVars }\<close> handed to the rubric environment.\<close>

definition row_outputs :: "TestResult list \<Rightarrow> OutputPart list list" where
  "row_outputs results = map (\<lambda>r. output_parts (out_value r)) results"

definition rubric_vars :: "'m ConsistencyAssertion \<Rightarrow> TestResult list \<Rightarrow> (string \<times> env_var) list" where
  "rubric_vars a results =
     spread [(''output'', Outputs (row_outputs results)), (''criteria'', Json (JStr (ca_criteria a)))]
       (map (\<lambda>(k, v). (k, Json v)) (ca_testVars a))"

text \<open>
  The assertion's \<^verbatim>\<open>run\<close> on the results of a row. \<open>rubric_env\<close> is the rubric
  environment's \<^verbatim>\<open>run\<close>, from the model, the template and the variables. The value is
  \<open>None\<close> when the generator never ends, and otherwise the verdicts or what was thrown.
\<close>

definition consistency_run ::
  "('m \<Rightarrow> string \<Rightarrow> (string \<times> env_var) list \<Rightarrow> generator) \<Rightarrow> (string \<Rightarrow> jsval list)
    \<Rightarrow> (jsval \<Rightarrow> AssertionResult option) \<Rightarrow> 'm ConsistencyAssertion \<Rightarrow> TestResult list
    \<Rightarrow> (exn + AssertionResult list) option" where
  "consistency_run rubric_env extractAllJsonObjects assertionResultSchema a results =
     (case drain (rubric_env (ca_model a) (ca_prompt a) (rubric_vars a results)) of
        None \<Rightarrow> None
      | Some (Inl ex) \<Rightarrow> Some (Inl ex)
      | Some (Inr result) \<Rightarrow>
          Some (Inr (rubric_verdict extractAllJsonObjects assertionResultSchema result
                       (length results))))"

section \<open>Example inputs\<close>

text \<open>
  A world with a provider that answers its prompt and one that fails, and whose
  assertion manager knows one type of assertion, the per-cell \<^verbatim>\<open>equals\<close>, which compares
  the output with the string of its \<^verbatim>\<open>vars\<close>, and throws for any other type; and a
  configuration with one prompt, one test with one assertion of the given type, and the
  given providers.
\<close>

definition example_world :: "string world" where
  "example_world =
     \<lparr>getProvider = (\<lambda>i. if i = ''unknown'' then Inl (Error ''Unknown provider'') else Inr i),
      env_run = (\<lambda>m p vars.
         if m = ''down:model''
         then \<lparr>error = Some ''HTTP 500'', out_value = None, latencyMillis = None, tokenUsage = None\<rparr>
         else \<lparr>error = None, out_value = Some (OutputString p), latencyMillis = Some 7, tokenUsage = None\<rparr>),
      getAssertion = (\<lambda>a vars.
         if atype a = ''equals''
         then Inr (\<lambda>out. \<lparr>ar_pass = (map_option OutputString (case avars a of JStr s \<Rightarrow> Some s | _ \<Rightarrow> None) = out),
                            ar_message = None\<rparr>)
         else Inl (Error ''Unknown assertion type'')),
      randomUUID = ''run-1'', now = 1000, answer = False\<rparr>"

definition example_config :: "string list \<Rightarrow> string \<Rightarrow> Config" where
  "example_config providers ty =
     \<lparr>cfg_description = None, cfg_prompts = Some [''Say hi''],
      cfg_providers = Some (map ProviderId providers),
      cfg_tests = Some [\<lparr>tc_vars = None,
                          tc_assert = Some [\<lparr>atype = ty, avars = JStr ''Say hi''\<rparr>],
                          tc_description = None\<rparr>],
      cfg_defaultTest = None\<rparr>"

text \<open>Events of a stream: a text delta, and a completion whose payload has a text of its
  own and keys that the schemas do not name.\<close>

definition example_delta :: "string \<Rightarrow> jsval option" where
  "example_delta s =
     Some (JObj [(''type'', JStr ''response.output_text.delta''), (''delta'', JStr s)])"

definition example_completed :: "jsval option" where
  "example_completed =
     Some (JObj [(''type'', JStr ''response.completed''),
       (''response'', JObj [(''id'', JStr ''resp_1''), (''output_text'', JStr ''Hello!''),
          (''usage'', JObj [(''input_tokens'', JNum 2), (''output_tokens'', JNum 3),
                            (''cached'', JNum 0)]),
          (''model'', JStr ''gpt'')])])"

text \<open>A configuration whose one test binds the variable \<^verbatim>\<open>items\<close> to the given value.\<close>

definition example_vars_config :: "jsval \<Rightarrow> Config" where
  "example_vars_config v =
     \<lparr>cfg_description = None, cfg_prompts = Some [''List {{items}}''],
      cfg_providers = Some [ProviderId ''echo:model''],
      cfg_tests = Some [\<lparr>tc_vars = Some [(''items'', v)], tc_assert = None, tc_description = None\<rparr>],
      cfg_defaultTest = None\<rparr>"

section \<open>Properties\<close>

subsection \<open>Merging the messages of a continued session\<close>

lemma all_or_first_length: "all_or_first rs = Inr xs \<Longrightarrow> length xs = length rs"
proof (induction rs arbitrary: xs)
  case Nil
  then show ?case by simp
next
  case (Cons r rs)
  then show ?case by (cases r) (auto split: sum.splits)
qed

text \<open>
  Claim C10. \<open>mergeMessages a b\<close> is \<open>a\<close>, unchanged, followed by exactly the messages of
  \<open>b\<close> whose role is not \<open>System\<close>, in their order; so the messages of a request that
  continues a session \<open>a\<close> are \<open>a\<close> followed by the new conversation's turns without its
  system turns.
\<close>

theorem mergeMessages_drops_system:
  "take (length a) (mergeMessages a b) = a
   \<and> drop (length a) (mergeMessages a b) = filter (\<lambda>m. role m \<noteq> System) b
   \<and> (\<forall>msgs. run f conv (Some a) = Inr msgs \<longrightarrow>
        (\<exists>new. conversationToResponses f conv = Inr new
           \<and> msgs = a @ filter (\<lambda>m. role m \<noteq> System) new
           \<and> System \<notin> role ` set (drop (length a) msgs)))"
proof -
  have "run f conv (Some a) = Inr msgs \<Longrightarrow>
        \<exists>new. conversationToResponses f conv = Inr new
           \<and> msgs = a @ filter (\<lambda>m. role m \<noteq> System) new
           \<and> System \<notin> role ` set (drop (length a) msgs)" for msgs
    by (cases "conversationToResponses f conv") (auto simp: run_def mergeMessages_def)
  then show ?thesis
    by (simp add: mergeMessages_def)
qed

theorem mergeMessages_drops_system_witness:
  "run (\<lambda>h. ''data'')
     [\<lparr>turn_role = System, turn_content = [text_part ''be brief'']\<rparr>,
      \<lparr>turn_role = User, turn_content = [text_part ''and then?'']\<rparr>]
     (Some [\<lparr>role = System, content = Text ''be kind''\<rparr>,
            \<lparr>role = User, content = Text ''hello''\<rparr>,
            \<lparr>role = Assistant, content = Text ''hi''\<rparr>])
   = Inr [\<lparr>role = System, content = Text ''be kind''\<rparr>,
          \<lparr>role = User, content = Text ''hello''\<rparr>,
          \<lparr>role = Assistant, content = Text ''hi''\<rparr>,
          \<lparr>role = User, content = Text ''and then?''\<rparr>]"
  using mergeMessages_drops_system
    [of "[\<lparr>role = System, content = Text ''be kind''\<rparr>,
          \<lparr>role = User, content = Text ''hello''\<rparr>,
          \<lparr>role = Assistant, content = Text ''hi''\<rparr>]"
        "[]" "\<lambda>h. ''data''"
        "[\<lparr>turn_role = System, turn_content = [text_part ''be brief'']\<rparr>,
          \<lparr>turn_role = User, turn_content = [text_part ''and then?'']\<rparr>]"]
  by (simp add: run_def conversationToResponses_def turnToResponse_def mergeMessages_def)

subsection \<open>Defaults merged into the tests\<close>

lemma map_of_spread:
  "distinct (map fst b) \<Longrightarrow> map_of (spread a b) = map_of a ++ map_of b"
proof (induction b arbitrary: a)
  case Nil
  then show ?case by (simp add: spread_def)
next
  case (Cons kv b)
  obtain k v where kv: "kv = (k, v)" by (cases kv)
  from Cons.prems kv have d: "distinct (map fst b)" and nk: "k \<notin> fst ` set b" by auto
  have "map_of (spread a (kv # b)) = map_of (spread (AList.update k v a) b)"
    by (simp add: spread_def kv)
  also have "\<dots> = map_of (AList.update k v a) ++ map_of b"
    using Cons.IH[OF d] .
  also have "\<dots> = (map_of a)(k \<mapsto> v) ++ map_of b"
    by (simp add: update_conv')
  also have "\<dots> = map_of a ++ map_of (kv # b)"
  proof (rule ext)
    fix x
    from nk have "map_of b k = None" by (simp add: map_of_eq_None_iff)
    then show "((map_of a)(k \<mapsto> v) ++ map_of b) x = (map_of a ++ map_of (kv # b)) x"
      by (auto simp: map_add_def kv split: option.splits)
  qed
  finally show ?case .
qed

text \<open>
  Claim C6. Without a \<open>defaultTest\<close> the tests are those of the configuration, unchanged.
  With one, every test is replaced by a merged test: its assert list is the default's
  followed by the test's own, and looking a variable up in its vars gives the test's
  binding where the test has one and the default's otherwise (the test's vars being an
  object: every key once).
\<close>

theorem globalTests_merges_defaults:
  "(cfg_defaultTest config = None \<longrightarrow> globalTests config = tests_of config)
   \<and> (\<forall>d. cfg_defaultTest config = Some d \<longrightarrow>
        length (globalTests config) = length (tests_of config)
        \<and> (\<forall>i < length (tests_of config).
             assert_of (globalTests config ! i) = assert_of d @ assert_of (tests_of config ! i)
             \<and> (distinct (map fst (vars_of (tests_of config ! i))) \<longrightarrow>
                  (\<forall>k. map_of (vars_of (globalTests config ! i)) k =
                        (case map_of (vars_of (tests_of config ! i)) k of
                           Some v \<Rightarrow> Some v
                         | None \<Rightarrow> map_of (vars_of d) k)))))"
proof -
  have merged: "assert_of (mergeTest d t) = assert_of d @ assert_of t" for d t
    by (simp add: mergeTest_def assert_of_def)
  have vars: "map_of (vars_of (mergeTest d t)) k =
        (case map_of (vars_of t) k of Some v \<Rightarrow> Some v | None \<Rightarrow> map_of (vars_of d) k)"
    if "distinct (map fst (vars_of t))" for d t k
  proof -
    have "vars_of (mergeTest d t) = spread (vars_of d) (vars_of t)"
      by (simp add: mergeTest_def vars_of_def)
    with map_of_spread[OF that] show ?thesis
      by (simp add: map_add_def)
  qed
  show ?thesis
    by (auto simp: globalTests_def merged vars)
qed

theorem globalTests_merges_defaults_witness:
  "cfg_defaultTest
     \<lparr>cfg_description = None, cfg_prompts = None, cfg_providers = None,
      cfg_tests = Some [\<lparr>tc_vars = Some [(''tone'', JStr ''warm'')],
                          tc_assert = Some [\<lparr>atype = ''contains'', avars = JStr ''hi''\<rparr>],
                          tc_description = None\<rparr>],
      cfg_defaultTest = Some \<lparr>tc_vars = Some [(''lang'', JStr ''en''), (''tone'', JStr ''dry'')],
                               tc_assert = Some [\<lparr>atype = ''llm-rubric'', avars = JNull\<rparr>],
                               tc_description = Some ''base''\<rparr>\<rparr>
     = Some \<lparr>tc_vars = Some [(''lang'', JStr ''en''), (''tone'', JStr ''dry'')],
             tc_assert = Some [\<lparr>atype = ''llm-rubric'', avars = JNull\<rparr>],
             tc_description = Some ''base''\<rparr>
   \<and> globalTests
     \<lparr>cfg_description = None, cfg_prompts = None, cfg_providers = None,
      cfg_tests = Some [\<lparr>tc_vars = Some [(''tone'', JStr ''warm'')],
                          tc_assert = Some [\<lparr>atype = ''contains'', avars = JStr ''hi''\<rparr>],
                          tc_description = None\<rparr>],
      cfg_defaultTest = Some \<lparr>tc_vars = Some [(''lang'', JStr ''en''), (''tone'', JStr ''dry'')],
                               tc_assert = Some [\<lparr>atype = ''llm-rubric'', avars = JNull\<rparr>],
                               tc_description = Some ''base''\<rparr>\<rparr>
     = [\<lparr>tc_vars = Some [(''lang'', JStr ''en''), (''tone'', JStr ''warm'')],
         tc_assert = Some [\<lparr>atype = ''llm-rubric'', avars = JNull\<rparr>,
                           \<lparr>atype = ''contains'', avars = JStr ''hi''\<rparr>],
         tc_description = Some ''base''\<rparr>]"
  using globalTests_merges_defaults
    [of "\<lparr>cfg_description = None, cfg_prompts = None, cfg_providers = None,
      cfg_tests = Some [\<lparr>tc_vars = Some [(''tone'', JStr ''warm'')],
                          tc_assert = Some [\<lparr>atype = ''contains'', avars = JStr ''hi''\<rparr>],
                          tc_description = None\<rparr>],
      cfg_defaultTest = Some \<lparr>tc_vars = Some [(''lang'', JStr ''en''), (''tone'', JStr ''dry'')],
                               tc_assert = Some [\<lparr>atype = ''llm-rubric'', avars = JNull\<rparr>],
                               tc_description = Some ''base''\<rparr>\<rparr>"]
  by (simp add: globalTests_def tests_of_def mergeTest_def spread_def vars_of_def assert_of_def)

subsection \<open>The results of a run\<close>

lemma createEnvs_envs:
  "createEnvs gp gps ps = (evs, Inr (envs, runEnvs)) \<Longrightarrow>
   list_all2 (\<lambda>env renv. snd env = snd renv \<and> gp (provider_id (fst renv)) = Inr (fst env)) envs runEnvs"
proof (induction ps arbitrary: evs envs runEnvs)
  case Nil
  then show ?case by simp
next
  case (Cons p ps)
  from Cons.prems obtain model where m: "gp (provider_id p) = Inr model"
    by (cases "gp (provider_id p)") auto
  obtain evs' r' where rest: "createEnvs gp gps ps = (evs', r')"
    by (cases "createEnvs gp gps ps")
  from Cons.prems m rest obtain envs' runEnvs' where r': "r' = Inr (envs', runEnvs')"
    by (cases r') (auto simp: Let_def)
  from Cons.prems m rest r'
  have envs: "envs = map (Pair model) (provider_prompts gps p) @ envs'"
    and runEnvs: "runEnvs = map (Pair p) (provider_prompts gps p) @ runEnvs'"
    by (auto simp: Let_def)
  have "list_all2 (\<lambda>env renv. snd env = snd renv \<and> gp (provider_id (fst renv)) = Inr (fst env))
          (map (Pair model) (provider_prompts gps p)) (map (Pair p) (provider_prompts gps p))"
    by (simp add: list_all2_map1 list_all2_map2 list_all2_same m)
  moreover have "list_all2 (\<lambda>env renv. snd env = snd renv \<and> gp (provider_id (fst renv)) = Inr (fst env))
          envs' runEnvs'"
    using Cons.IH rest r' by simp
  ultimately show ?case
    unfolding envs runEnvs by (rule list_all2_appendI)
qed

lemma createEnvs_events:
  "createEnvs gp gps ps = (evs, r) \<Longrightarrow> set evs \<subseteq> range ProviderRequested"
proof (induction ps arbitrary: evs r)
  case Nil
  then show ?case by simp
next
  case (Cons p ps)
  obtain evs' r' where rest: "createEnvs gp gps ps = (evs', r')"
    by (cases "createEnvs gp gps ps")
  from Cons.IH[OF rest] have "set evs' \<subseteq> range ProviderRequested" .
  moreover from Cons.prems rest
  have "evs = [ProviderRequested (provider_id p)] \<or> evs = ProviderRequested (provider_id p) # evs'"
    by (auto simp: Let_def split: sum.splits prod.splits)
  ultimately show ?case by auto
qed

lemma enqueue_row_units:
  "enqueue_row w t test e0 envs = (evs, Inr units) \<Longrightarrow>
   units = map (\<lambda>(e, env). cell_unit w t test e env) (List.enumerate e0 envs)"
proof (induction envs arbitrary: e0 evs units)
  case Nil
  then show ?case by simp
next
  case (Cons env envs)
  from Cons.prems obtain assertions
    where a: "all_or_first (map (\<lambda>a. getAssertion w a (vars_of test)) (assert_of test)) = Inr assertions"
    by (cases "all_or_first (map (\<lambda>a. getAssertion w a (vars_of test)) (assert_of test))") auto
  obtain evs' r' where rest: "enqueue_row w t test (Suc e0) envs = (evs', r')"
    by (cases "enqueue_row w t test (Suc e0) envs")
  from Cons.prems a rest obtain units' where r': "r' = Inr units'"
    by (cases r') auto
  from Cons.prems a rest r'
  have "units = unit_of_work t e0 (env_run w (fst env) (snd env) (vars_of test)) assertions new_result # units'"
    by simp
  moreover have "units' = map (\<lambda>(e, env). cell_unit w t test e env) (List.enumerate (Suc e0) envs)"
    using Cons.IH rest r' by simp
  ultimately show ?case
    by (simp add: cell_unit_def the_assertions_def a)
qed

lemma enqueue_row_events:
  "enqueue_row w t test e0 envs = (evs, r) \<Longrightarrow> \<forall>ev \<in> set evs. \<exists>t e. ev = Enqueued t e"
proof (induction envs arbitrary: e0 evs r)
  case Nil
  then show ?case by simp
next
  case (Cons env envs)
  obtain evs' r' where rest: "enqueue_row w t test (Suc e0) envs = (evs', r')"
    by (cases "enqueue_row w t test (Suc e0) envs")
  from Cons.IH[OF rest] have "\<forall>ev \<in> set evs'. \<exists>t e. ev = Enqueued t e" .
  moreover from Cons.prems rest have "evs = [] \<or> evs = Enqueued t e0 # evs'"
    by (auto split: sum.splits)
  ultimately show ?case by auto
qed

lemma enqueue_tests_units:
  "enqueue_tests w t0 tests envs = (evs, Inr rows) \<Longrightarrow>
   rows = map (\<lambda>(t, test). map (\<lambda>(e, env). cell_unit w t test e env) (List.enumerate 0 envs))
            (List.enumerate t0 tests)"
proof (induction tests arbitrary: t0 evs rows)
  case Nil
  then show ?case by simp
next
  case (Cons test tests)
  obtain evs1 r1 where row: "enqueue_row w t0 test 0 envs = (evs1, r1)"
    by (cases "enqueue_row w t0 test 0 envs")
  from Cons.prems row obtain units where r1: "r1 = Inr units"
    by (cases r1) auto
  obtain evs' r' where rest: "enqueue_tests w (Suc t0) tests envs = (evs', r')"
    by (cases "enqueue_tests w (Suc t0) tests envs")
  from Cons.prems row r1 rest obtain rows' where r': "r' = Inr rows'"
    by (cases r') auto
  from Cons.prems row r1 rest r' have "rows = units # rows'"
    by simp
  moreover have "units = map (\<lambda>(e, env). cell_unit w t0 test e env) (List.enumerate 0 envs)"
    using enqueue_row_units row r1 by blast
  moreover have "rows' = map (\<lambda>(t, test). map (\<lambda>(e, env). cell_unit w t test e env) (List.enumerate 0 envs))
            (List.enumerate (Suc t0) tests)"
    using Cons.IH rest r' by simp
  ultimately show ?case by simp
qed

lemma enqueue_tests_events:
  "enqueue_tests w t0 tests envs = (evs, r) \<Longrightarrow> \<forall>ev \<in> set evs. \<exists>t e. ev = Enqueued t e"
proof (induction tests arbitrary: t0 evs r)
  case Nil
  then show ?case by simp
next
  case (Cons test tests)
  show ?case
  proof (cases "enqueue_row w t0 test 0 envs")
    case (Pair evs1 r1)
    note row = enqueue_row_events[OF Pair]
    show ?thesis
    proof (cases r1)
      case (Inl ex)
      with Cons.prems Pair row show ?thesis by auto
    next
      case (Inr rowu)
      obtain evs2 r2 where rest: "enqueue_tests w (Suc t0) tests envs = (evs2, r2)"
        by (cases "enqueue_tests w (Suc t0) tests envs")
      from Cons.IH[OF rest] have "\<forall>ev \<in> set evs2. \<exists>t e. ev = Enqueued t e" .
      moreover from Cons.prems Pair Inr rest have "evs = evs1 @ evs2"
        by (auto split: sum.splits)
      ultimately show ?thesis using row by auto
    qed
  qed
qed


lemma all_or_first_nth:
  "all_or_first rs = Inr xs \<Longrightarrow> i < length rs \<Longrightarrow> rs ! i = Inr (xs ! i)"
proof (induction rs arbitrary: xs i)
  case Nil
  then show ?case by simp
next
  case (Cons r rs)
  then show ?case
    by (cases r; cases i) (auto split: sum.splits)
qed

lemma enqueue_row_assertions:
  "enqueue_row w t test e0 envs = (evs, Inr units) \<Longrightarrow> envs \<noteq> [] \<Longrightarrow>
   all_or_first (map (\<lambda>a. getAssertion w a (vars_of test)) (assert_of test))
     = Inr (the_assertions w test)"
  by (cases envs) (auto simp: the_assertions_def split: sum.splits)

lemma enqueue_tests_assertions:
  "enqueue_tests w t0 tests envs = (evs, Inr rows) \<Longrightarrow> envs \<noteq> [] \<Longrightarrow> test \<in> set tests \<Longrightarrow>
   all_or_first (map (\<lambda>a. getAssertion w a (vars_of test)) (assert_of test))
     = Inr (the_assertions w test)"
proof (induction tests arbitrary: t0 evs rows)
  case Nil
  then show ?case by simp
next
  case (Cons x tests)
  obtain evs1 r1 where row: "enqueue_row w t0 x 0 envs = (evs1, r1)"
    by (cases "enqueue_row w t0 x 0 envs")
  from Cons.prems(1) row obtain units where r1: "r1 = Inr units"
    by (cases r1) auto
  obtain evs' r' where rest: "enqueue_tests w (Suc t0) tests envs = (evs', r')"
    by (cases "enqueue_tests w (Suc t0) tests envs")
  from Cons.prems(1) row r1 rest obtain rows' where r': "r' = Inr rows'"
    by (cases r') auto
  show ?case
  proof (cases "test = x")
    case True
    with row r1 Cons.prems(2) show ?thesis
      using enqueue_row_assertions by blast
  next
    case False
    with Cons.prems(3) have "test \<in> set tests" by simp
    with Cons.IH rest r' Cons.prems(2) show ?thesis by blast
  qed
qed

lemma run_config_Inr:
  assumes "run_config w config = (tr, Inr rn)"
  shows "\<exists>pre envs.
           tr = pre @ concat (map (\<lambda>row. concat (map fst row)) (rows_of w (run_tests rn) envs))
                  @ [QueueCompleted, ManagerDestroyed, RunStored (run_id rn), RunPersisted (run_id rn)]
         \<and> list_all setup_event pre
         \<and> run_results rn = map (map snd) (rows_of w (run_tests rn) envs)
         \<and> list_all2 (\<lambda>env renv. snd env = snd renv
               \<and> getProvider w (provider_id (fst renv)) = Inr (fst env)) envs (run_envs rn)
         \<and> (envs \<noteq> [] \<longrightarrow> (\<forall>test \<in> set (run_tests rn).
               all_or_first (map (\<lambda>a. getAssertion w a (vars_of test)) (assert_of test))
                 = Inr (the_assertions w test)))"
proof -
  let ?gps = "case cfg_prompts config of None \<Rightarrow> [] | Some ps \<Rightarrow> ps"
  let ?gprov = "case cfg_providers config of None \<Rightarrow> [] | Some ps \<Rightarrow> ps"
  obtain evs1 r1 where ce: "createEnvs (getProvider w) ?gps ?gprov = (evs1, r1)"
    by (cases "createEnvs (getProvider w) ?gps ?gprov")
  from assms ce obtain envs runEnvs where r1: "r1 = Inr (envs, runEnvs)"
    by (cases r1) (auto simp: run_config_def)
  obtain evs2 r2 where et: "enqueue_tests w 0 (globalTests config) envs = (evs2, r2)"
    by (cases "enqueue_tests w 0 (globalTests config) envs")
  from assms ce r1 et obtain units where r2: "r2 = Inr units"
    by (cases r2) (auto simp: run_config_def)
  from assms ce r1 et r2
  have tr: "tr = (evs1 @ evs2) @ concat (map (\<lambda>row. concat (map fst row)) units)
             @ [QueueCompleted, ManagerDestroyed, RunStored (randomUUID w), RunPersisted (randomUUID w)]"
    and rn: "rn = \<lparr>run_version = 1, run_id = randomUUID w, run_timestamp = now w,
                run_description = cfg_description config, run_envs = runEnvs,
                run_tests = globalTests config, run_results = map (map snd) units\<rparr>"
    by (auto simp: run_config_def)
  have units: "units = rows_of w (globalTests config) envs"
    using enqueue_tests_units[of w 0 "globalTests config" envs evs2 units] et r2
    by (simp add: rows_of_def)
  have pre: "list_all setup_event (evs1 @ evs2)"
    using createEnvs_events[OF ce] enqueue_tests_events[OF et]
    by (auto simp: list_all_iff setup_event_def)
  have envs: "list_all2 (\<lambda>env renv. snd env = snd renv
               \<and> getProvider w (provider_id (fst renv)) = Inr (fst env)) envs runEnvs"
    using createEnvs_envs[of "getProvider w" ?gps ?gprov evs1 envs runEnvs] ce r1 by simp
  have asserts: "all_or_first (map (\<lambda>a. getAssertion w a (vars_of test)) (assert_of test))
                 = Inr (the_assertions w test)"
    if "envs \<noteq> []" "test \<in> set (globalTests config)" for test
    using enqueue_tests_assertions[of w 0 "globalTests config" envs evs2 units test] et r2 that
    by simp
  show ?thesis
    using tr pre envs units asserts
    by (intro exI[of _ "evs1 @ evs2"] exI[of _ envs]) (simp add: rn)
qed

lemma runTests_Inr:
  assumes "runTests w c s = (tr, Inr rn)"
  shows "\<exists>pre envs.
           tr = pre @ concat (map (\<lambda>row. concat (map fst row)) (rows_of w (run_tests rn) envs))
                  @ [QueueCompleted, ManagerDestroyed, RunStored (run_id rn), RunPersisted (run_id rn)]
         \<and> list_all setup_event pre
         \<and> run_results rn = map (map snd) (rows_of w (run_tests rn) envs)
         \<and> list_all2 (\<lambda>env renv. snd env = snd renv
               \<and> getProvider w (provider_id (fst renv)) = Inr (fst env)) envs (run_envs rn)
         \<and> (envs \<noteq> [] \<longrightarrow> (\<forall>test \<in> set (run_tests rn).
               all_or_first (map (\<lambda>a. getAssertion w a (vars_of test)) (assert_of test))
                 = Inr (the_assertions w test)))"
proof -
  from assms obtain config0 where c: "c = Some config0"
    by (cases c) (auto simp: runTests_def)
  from assms c obtain storage where s: "s = Some storage"
    by (cases s) (auto simp: runTests_def)
  from assms c s obtain same
    where de: "deepEquals (config_js config0) (config_js (getConfig storage)) = Inr same"
    by (cases "deepEquals (config_js config0) (config_js (getConfig storage))")
       (auto simp: runTests_def)
  let ?config = "if \<not> same \<and> answer w then getConfig storage else config0"
  let ?asked = "if same then [] else [Prompted]"
  obtain evs where rc: "run_config w ?config = (evs, Inr rn)" and tr: "tr = ConfigFetched # ?asked @ evs"
    using assms by (cases "run_config w ?config") (auto simp: runTests_def c s de Let_def)
  from run_config_Inr[OF rc] obtain pre envs where
    evs: "evs = pre @ concat (map (\<lambda>row. concat (map fst row)) (rows_of w (run_tests rn) envs))
                  @ [QueueCompleted, ManagerDestroyed, RunStored (run_id rn), RunPersisted (run_id rn)]"
    and pre: "list_all setup_event pre"
    and rest: "run_results rn = map (map snd) (rows_of w (run_tests rn) envs)"
       "list_all2 (\<lambda>env renv. snd env = snd renv
               \<and> getProvider w (provider_id (fst renv)) = Inr (fst env)) envs (run_envs rn)"
       "envs \<noteq> [] \<longrightarrow> (\<forall>test \<in> set (run_tests rn).
               all_or_first (map (\<lambda>a. getAssertion w a (vars_of test)) (assert_of test))
                 = Inr (the_assertions w test))"
    by blast
  have "list_all setup_event (ConfigFetched # ?asked @ pre)"
    using pre by (simp add: setup_event_def)
  moreover have "tr = (ConfigFetched # ?asked @ pre) @ concat (map (\<lambda>row. concat (map fst row)) (rows_of w (run_tests rn) envs))
                  @ [QueueCompleted, ManagerDestroyed, RunStored (run_id rn), RunPersisted (run_id rn)]"
    using tr evs by simp
  ultimately show ?thesis
    using rest by blast
qed


lemma rows_of_length:
  "length (rows_of w tests envs) = length tests"
  "row \<in> set (rows_of w tests envs) \<Longrightarrow> length row = length envs"
  by (auto simp: rows_of_def)

lemma rows_of_row_length:
  "t < length tests \<Longrightarrow> length (rows_of w tests envs ! t) = length envs"
  by (simp add: rows_of_def nth_enumerate_eq)

lemma rows_of_nth:
  "t < length tests \<Longrightarrow> e < length envs \<Longrightarrow>
   rows_of w tests envs ! t ! e = cell_unit w t (tests ! t) e (envs ! e)"
  by (simp add: rows_of_def nth_enumerate_eq)

lemma unit_events:
  "ev \<in> set (fst (unit_of_work t e out as r0)) \<longleftrightarrow>
   ev = EnvSettled t e \<or> (\<not> has_error out \<and> (\<exists>j<length as. ev = AssertionRun t e j (out_value out)))"
  by (auto simp: unit_of_work_def Let_def)

lemma rows_events:
  "ev \<in> set (concat (map (\<lambda>row. concat (map fst row)) (rows_of w tests envs))) \<longleftrightarrow>
   (\<exists>t<length tests. \<exists>e<length envs. ev \<in> set (fst (cell_unit w t (tests ! t) e (envs ! e))))"
proof
  assume "ev \<in> set (concat (map (\<lambda>row. concat (map fst row)) (rows_of w tests envs)))"
  then obtain row u where row: "row \<in> set (rows_of w tests envs)" and u: "u \<in> set row" and ev: "ev \<in> set (fst u)"
    by auto
  from row obtain t where t: "t < length tests" and r: "row = rows_of w tests envs ! t"
    by (metis in_set_conv_nth rows_of_length(1))
  from u rows_of_length(2)[OF row] obtain e where e: "e < length envs" and "u = row ! e"
    by (metis in_set_conv_nth)
  with r t have "u = cell_unit w t (tests ! t) e (envs ! e)"
    by (simp add: rows_of_nth)
  with ev t e show "\<exists>t<length tests. \<exists>e<length envs. ev \<in> set (fst (cell_unit w t (tests ! t) e (envs ! e)))"
    by blast
next
  assume "\<exists>t<length tests. \<exists>e<length envs. ev \<in> set (fst (cell_unit w t (tests ! t) e (envs ! e)))"
  then obtain t e where t: "t < length tests" and e: "e < length envs"
    and ev: "ev \<in> set (fst (cell_unit w t (tests ! t) e (envs ! e)))" by blast
  let ?row = "rows_of w tests envs ! t"
  have row: "?row \<in> set (rows_of w tests envs)"
    using t by (simp add: rows_of_length(1))
  have "?row ! e \<in> set ?row"
    using e rows_of_length(2)[OF row] by simp
  with ev row t e show "ev \<in> set (concat (map (\<lambda>row. concat (map fst row)) (rows_of w tests envs)))"
    by (auto simp: rows_of_nth intro!: bexI[of _ ?row] bexI[of _ "?row ! e"])
qed

lemma example_run:
  "runTests example_world
     (Some (example_config [''echo:model'', ''down:model''] ''equals''))
     (Some \<lparr>getConfig = example_config [''echo:model'', ''down:model''] ''equals''\<rparr>)
   = ([ConfigFetched, ProviderRequested ''echo:model'', ProviderRequested ''down:model'',
       Enqueued 0 0, Enqueued 0 1,
       EnvSettled 0 0, AssertionRun 0 0 0 (Some (OutputString ''Say hi'')),
       EnvSettled 0 1,
       QueueCompleted, ManagerDestroyed, RunStored ''run-1'', RunPersisted ''run-1''],
      Inr \<lparr>run_version = 1, run_id = ''run-1'', run_timestamp = 1000, run_description = None,
           run_envs = [(ProviderId ''echo:model'', ''Say hi''), (ProviderId ''down:model'', ''Say hi'')],
           run_tests = [\<lparr>tc_vars = None,
                          tc_assert = Some [\<lparr>atype = ''equals'', avars = JStr ''Say hi''\<rparr>],
                          tc_description = None\<rparr>],
           run_results =
             [[\<lparr>error = None, out_value = Some (OutputString ''Say hi''), latencyMillis = Some 7,
                 tokenUsage = None, pass = True,
                 assertionResults = [\<lparr>ar_pass = True, ar_message = None\<rparr>]\<rparr>,
               \<lparr>error = Some ''HTTP 500'', out_value = None, latencyMillis = None,
                 tokenUsage = None, pass = False, assertionResults = []\<rparr>]]\<rparr>)"
  by code_simp

text \<open>
  Claim C2. The run record that \<^verbatim>\<open>runTests\<close> assembles has one row of results per test
  and, in every row, one cell per environment pair.
\<close>

theorem results_matrix_shape:
  assumes "runTests w c s = (tr, Inr rn)"
  shows "length (run_results rn) = length (run_tests rn)
         \<and> (\<forall>row \<in> set (run_results rn). length row = length (run_envs rn))"
proof -
  from runTests_Inr[OF assms] obtain envs where
    res: "run_results rn = map (map snd) (rows_of w (run_tests rn) envs)"
    and envs: "list_all2 (\<lambda>env renv. snd env = snd renv
               \<and> getProvider w (provider_id (fst renv)) = Inr (fst env)) envs (run_envs rn)"
    by blast
  from envs have "length envs = length (run_envs rn)"
    by (rule list_all2_lengthD)
  then show ?thesis
    by (auto simp: res rows_of_length)
qed

theorem results_matrix_shape_witness:
  "\<exists>tr rn. runTests example_world
       (Some (example_config [''echo:model'', ''down:model''] ''equals''))
       (Some \<lparr>getConfig = example_config [''echo:model'', ''down:model''] ''equals''\<rparr>) = (tr, Inr rn)
     \<and> length (run_tests rn) = 1 \<and> length (run_envs rn) = 2
     \<and> length (run_results rn) = length (run_tests rn)
     \<and> list_all (\<lambda>row. length row = length (run_envs rn)) (run_results rn)"
  using results_matrix_shape[OF example_run] example_run
  by (simp add: list_all_iff)

lemma unit_of_work_cell:
  fixes t e out asserts
  defines "cell \<equiv> snd (unit_of_work t e out asserts new_result)"
  shows "error cell = error out"
    and "out_value cell = out_value out"
    and "latencyMillis cell = latencyMillis out"
    and "tokenUsage cell = tokenUsage out"
    and "pass cell \<longleftrightarrow> \<not> has_error out \<and> list_all ar_pass (assertionResults cell)"
    and "has_error out \<Longrightarrow> \<not> pass cell \<and> assertionResults cell = []"
    and "\<not> has_error out \<Longrightarrow> assertionResults cell = map (\<lambda>a. a (out_value out)) asserts"
  by (auto simp: cell_def unit_of_work_def Let_def copy_entries_def new_result_def split: option.splits)



subsection \<open>When the assertions run\<close>

lemma count_assertion_runs:
  "count_list (map (\<lambda>j. AssertionRun t' e' j v) [0..<n]) (AssertionRun t e j arg)
   = (if t' = t \<and> e' = e \<and> j < n \<and> arg = v then 1 else 0)"
  by (induction n) auto

lemma unit_count:
  "count_list (fst (unit_of_work t' e' out asserts r0)) (AssertionRun t e j arg)
   = (if t' = t \<and> e' = e \<and> \<not> has_error out \<and> j < length asserts \<and> arg = out_value out
      then 1 else 0)"
  by (simp add: unit_of_work_def Let_def count_assertion_runs)

lemma count_list_concat:
  "count_list (concat xss) x = sum_list (map (\<lambda>xs. count_list xs x) xss)"
  by (induction xss) auto

lemma sum_list_enumerate:
  "sum_list (map f (List.enumerate n xs)) = (\<Sum>i<length xs. f (n + i, xs ! i))"
proof (induction xs arbitrary: n)
  case Nil
  then show ?case by simp
next
  case (Cons x xs)
  let ?g = "\<lambda>i. f (n + i, (x # xs) ! i)"
  have "(\<Sum>i<Suc (length xs). ?g i) = ?g 0 + (\<Sum>i<length xs. ?g (Suc i))"
    by (rule sum.lessThan_Suc_shift)
  then have "(\<Sum>i<length (x # xs). f (n + i, (x # xs) ! i))
        = f (n, x) + (\<Sum>i<length xs. f (Suc n + i, xs ! i))"
    by simp
  with Cons.IH[of "Suc n"] show ?case by simp
qed

lemma rows_count:
  "count_list (concat (map (\<lambda>row. concat (map fst row)) (rows_of w tests envs))) ev
   = (\<Sum>t<length tests. \<Sum>e<length envs. count_list (fst (cell_unit w t (tests ! t) e (envs ! e))) ev)"
  unfolding rows_of_def
  by (simp add: count_list_concat comp_def case_prod_unfold sum_list_enumerate)


lemma cell_unit_cell:
  "error (snd (cell_unit w t test e env)) = error (env_run w (fst env) (snd env) (vars_of test))"
  "out_value (snd (cell_unit w t test e env)) = out_value (env_run w (fst env) (snd env) (vars_of test))"
  by (simp_all add: cell_unit_def unit_of_work_cell)

lemma cell_unit_count:
  "count_list (fst (cell_unit w t' test e' env)) (AssertionRun t e j arg)
   = (if t' = t \<and> e' = e \<and> \<not> has_error (snd (cell_unit w t' test e' env))
         \<and> j < length (the_assertions w test) \<and> arg = out_value (snd (cell_unit w t' test e' env))
      then 1 else 0)"
proof -
  have "has_error (snd (cell_unit w t' test e' env))
        = has_error (env_run w (fst env) (snd env) (vars_of test))"
    by (simp add: has_error_def cell_unit_cell)
  then show ?thesis
    by (simp add: cell_unit_cell(2)) (simp add: cell_unit_def unit_count)
qed

lemma sum_delta2:
  fixes P :: "nat \<Rightarrow> nat \<Rightarrow> bool"
  shows "(\<Sum>t'<T. \<Sum>e'<E. if t' = t \<and> e' = e \<and> P t' e' then 1 else 0)
         = (if t < T \<and> e < E \<and> P t e then 1 else (0::nat))"
proof -
  have inner: "(\<Sum>e'<E. if t' = t \<and> e' = e \<and> P t' e' then 1 else 0)
        = (if t' = t then (if e < E \<and> P t e then 1 else (0::nat)) else 0)" for t'
  proof (cases "t' = t")
    case True
    have "(\<Sum>e'<E. if e' = e \<and> P t e' then 1 else (0::nat))
          = (\<Sum>e'\<in>{..<E}. if e' = e then (if P t e then 1 else 0) else 0)"
      by (rule sum.cong) auto
    also have "\<dots> = (if e \<in> {..<E} then (if P t e then 1 else 0) else 0)"
      by (rule sum.delta) simp
    finally show ?thesis using True by simp
  next
    case False
    then show ?thesis by simp
  qed
  have "(\<Sum>t'<T. \<Sum>e'<E. if t' = t \<and> e' = e \<and> P t' e' then 1 else 0)
        = (\<Sum>t'\<in>{..<T}. if t' = t then (if e < E \<and> P t e then 1 else (0::nat)) else 0)"
    by (simp add: inner)
  also have "\<dots> = (if t \<in> {..<T} then (if e < E \<and> P t e then 1 else 0) else 0)"
    by (rule sum.delta) simp
  finally show ?thesis by simp
qed

text \<open>
  How often an assertion is run, in a run whose assertions all return: once for every
  cell of its test whose environment run produced no error, with the output of that cell,
  and all of it before the queue has completed.
\<close>

lemma assertion_run_counts:
  assumes "runTests w c s = (tr, Inr rn)"
  shows "\<exists>body.
           tr = body @ [QueueCompleted, ManagerDestroyed, RunStored (run_id rn), RunPersisted (run_id rn)]
         \<and> QueueCompleted \<notin> set body
         \<and> (\<forall>t e j arg. count_list body (AssertionRun t e j arg) =
               (if t < length (run_tests rn) \<and> e < length (run_envs rn)
                   \<and> j < length (assert_of (run_tests rn ! t))
                   \<and> \<not> has_error (run_results rn ! t ! e)
                   \<and> arg = out_value (run_results rn ! t ! e)
                then 1 else 0))"
proof -
  from runTests_Inr[OF assms] obtain pre envs where
    tr: "tr = pre @ concat (map (\<lambda>row. concat (map fst row)) (rows_of w (run_tests rn) envs))
                  @ [QueueCompleted, ManagerDestroyed, RunStored (run_id rn), RunPersisted (run_id rn)]"
    and pre: "list_all setup_event pre"
    and res: "run_results rn = map (map snd) (rows_of w (run_tests rn) envs)"
    and envs: "list_all2 (\<lambda>env renv. snd env = snd renv
               \<and> getProvider w (provider_id (fst renv)) = Inr (fst env)) envs (run_envs rn)"
    and asserts: "envs \<noteq> [] \<longrightarrow> (\<forall>test \<in> set (run_tests rn).
               all_or_first (map (\<lambda>a. getAssertion w a (vars_of test)) (assert_of test))
                 = Inr (the_assertions w test))"
    by blast
  let ?tests = "run_tests rn"
  let ?units = "concat (map (\<lambda>row. concat (map fst row)) (rows_of w ?tests envs))"
  let ?body = "pre @ ?units"
  from envs have len: "length envs = length (run_envs rn)"
    by (rule list_all2_lengthD)
  have cell: "run_results rn ! t ! e = snd (cell_unit w t (?tests ! t) e (envs ! e))"
    if "t < length ?tests" "e < length envs" for t e
    using that by (simp add: res rows_of_length rows_of_row_length rows_of_nth)
  have nasserts: "length (the_assertions w (?tests ! t)) = length (assert_of (?tests ! t))"
    if "t < length ?tests" "e < length envs" for t e
  proof -
    from that have "envs \<noteq> []" "?tests ! t \<in> set ?tests" by auto
    with asserts have "all_or_first (map (\<lambda>a. getAssertion w a (vars_of (?tests ! t))) (assert_of (?tests ! t)))
                 = Inr (the_assertions w (?tests ! t))" by blast
    from all_or_first_length[OF this] show ?thesis by simp
  qed
  have no_completed: "QueueCompleted \<notin> set ?body"
  proof
    assume "QueueCompleted \<in> set ?body"
    with pre have "QueueCompleted \<in> set ?units"
      by (auto simp: list_all_iff setup_event_def)
    then show False
      unfolding rows_events by (auto simp: cell_unit_def unit_events)
  qed
  have count: "count_list ?body (AssertionRun t e j arg) =
               (if t < length ?tests \<and> e < length (run_envs rn)
                   \<and> j < length (assert_of (?tests ! t))
                   \<and> \<not> has_error (run_results rn ! t ! e)
                   \<and> arg = out_value (run_results rn ! t ! e)
                then 1 else 0)" for t e j arg
  proof -
    let ?P = "\<lambda>t' e'. \<not> has_error (snd (cell_unit w t' (?tests ! t') e' (envs ! e')))
         \<and> j < length (the_assertions w (?tests ! t'))
         \<and> arg = out_value (snd (cell_unit w t' (?tests ! t') e' (envs ! e')))"
    have "count_list pre (AssertionRun t e j arg) = 0"
      using pre by (auto simp: list_all_iff setup_event_def count_list_0_iff)
    then have "count_list ?body (AssertionRun t e j arg)
        = (\<Sum>t'<length ?tests. \<Sum>e'<length envs. if t' = t \<and> e' = e \<and> ?P t' e' then 1 else 0)"
      by (simp add: rows_count cell_unit_count)
    also have "\<dots> = (if t < length ?tests \<and> e < length envs \<and> ?P t e then 1 else 0)"
      by (rule sum_delta2)
    also have "\<dots> = (if t < length ?tests \<and> e < length (run_envs rn)
                   \<and> j < length (assert_of (?tests ! t))
                   \<and> \<not> has_error (run_results rn ! t ! e)
                   \<and> arg = out_value (run_results rn ! t ! e)
                then 1 else 0)"
      using cell[of t e] nasserts[of t e] len by auto
    finally show ?thesis .
  qed
  show ?thesis
    using tr no_completed count by (intro exI[of _ ?body]) simp
qed

text \<open>
  Claim C3 does not hold of \<^verbatim>\<open>runTests\<close>. In every run that completes, whatever the
  assertion manager returned for the assertions of the tests, an assertion is run only in
  the unit of a cell, before the queue has completed, and what it is run with is the
  output of that one cell, never the results of the row. After the queue has completed
  the assertion manager is destroyed and the run is stored and persisted: no assertion
  is run with the results of a row, there or anywhere.
\<close>

theorem no_assertion_after_completion:
  assumes "runTests w c s = (tr, Inr rn)"
  shows "\<exists>body.
           tr = body @ [QueueCompleted, ManagerDestroyed, RunStored (run_id rn), RunPersisted (run_id rn)]
         \<and> QueueCompleted \<notin> set body
         \<and> (\<forall>t e j arg. AssertionRun t e j arg \<in> set body \<longrightarrow>
               t < length (run_tests rn) \<and> e < length (run_envs rn)
             \<and> j < length (assert_of (run_tests rn ! t))
             \<and> arg = out_value (run_results rn ! t ! e))"
proof -
  from assertion_run_counts[OF assms] obtain body where
    tr: "tr = body @ [QueueCompleted, ManagerDestroyed, RunStored (run_id rn), RunPersisted (run_id rn)]"
    and nc: "QueueCompleted \<notin> set body"
    and count: "\<And>t e j arg. count_list body (AssertionRun t e j arg) =
               (if t < length (run_tests rn) \<and> e < length (run_envs rn)
                   \<and> j < length (assert_of (run_tests rn ! t))
                   \<and> \<not> has_error (run_results rn ! t ! e)
                   \<and> arg = out_value (run_results rn ! t ! e)
                then 1 else 0)"
    by blast
  have "t < length (run_tests rn) \<and> e < length (run_envs rn)
             \<and> j < length (assert_of (run_tests rn ! t))
             \<and> arg = out_value (run_results rn ! t ! e)"
    if "AssertionRun t e j arg \<in> set body" for t e j arg
  proof (rule ccontr)
    assume "\<not> ?thesis"
    then have "count_list body (AssertionRun t e j arg) = 0"
      by (auto simp: count)
    with that show False
      by (simp add: count_list_0_iff)
  qed
  with tr nc show ?thesis by blast
qed

theorem no_assertion_after_completion_witness:
  "\<exists>tr rn body.
      runTests example_world
        (Some (example_config [''echo:model'', ''down:model''] ''equals''))
        (Some \<lparr>getConfig = example_config [''echo:model'', ''down:model''] ''equals''\<rparr>)
        = (tr, Inr rn)
    \<and> tr = body @ [QueueCompleted, ManagerDestroyed, RunStored (run_id rn), RunPersisted (run_id rn)]
    \<and> QueueCompleted \<notin> set body
    \<and> AssertionRun 0 0 0 (Some (OutputString ''Say hi'')) \<in> set body"
proof -
  from no_assertion_after_completion[OF example_run] obtain body where
    b: "[ConfigFetched, ProviderRequested ''echo:model'', ProviderRequested ''down:model'',
         Enqueued 0 0, Enqueued 0 1,
         EnvSettled 0 0, AssertionRun 0 0 0 (Some (OutputString ''Say hi'')),
         EnvSettled 0 1,
         QueueCompleted, ManagerDestroyed, RunStored ''run-1'', RunPersisted ''run-1'']
        = body @ [QueueCompleted, ManagerDestroyed, RunStored ''run-1'', RunPersisted ''run-1'']"
    and nc: "QueueCompleted \<notin> set body"
    by auto
  from b have "body = [ConfigFetched, ProviderRequested ''echo:model'', ProviderRequested ''down:model'',
         Enqueued 0 0, Enqueued 0 1,
         EnvSettled 0 0, AssertionRun 0 0 0 (Some (OutputString ''Say hi'')),
         EnvSettled 0 1]"
    by (simp add: append_eq_Cons_conv)
  then have "AssertionRun 0 0 0 (Some (OutputString ''Say hi'')) \<in> set body"
    by simp
  with b nc example_run show ?thesis
    by (intro exI[of _ "fst (runTests example_world
        (Some (example_config [''echo:model'', ''down:model''] ''equals''))
        (Some \<lparr>getConfig = example_config [''echo:model'', ''down:model''] ''equals''\<rparr>))"]
         exI[of _ "projr (snd (runTests example_world
        (Some (example_config [''echo:model'', ''down:model''] ''equals''))
        (Some \<lparr>getConfig = example_config [''echo:model'', ''down:model''] ''equals''\<rparr>)))"]
         exI[of _ body]) simp
qed

subsection \<open>Configuration errors\<close>

text \<open>
  Claim C7. Without a loaded configuration, and with one but without a storage,
  \<^verbatim>\<open>runTests\<close> throws with an empty trace: no provider was requested and no unit
  enqueued. With arguments that the schema rejects, \<^verbatim>\<open>createConsistencyAssertion\<close>
  throws before it asks the provider manager for the rubric model, so no model exists
  that could be invoked.
\<close>

theorem configuration_errors_first:
  "runTests w None s = ([], Inl (Error ''Cannot call runTests without a config''))
   \<and> runTests w (Some config) None = ([], Inl (Error ''Cannot call runTests without a storage''))
   \<and> (zparse (argsSchema providerSchema) args = None \<longrightarrow>
        createConsistencyAssertion providerSchema prompt dflt providerManager args testVars
          = ([], Inl (Error ''Invalid LLM Rubric arguments'')))"
  by (simp add: runTests_def createConsistencyAssertion_def)

theorem configuration_errors_first_witness:
  "zparse (argsSchema ZString) (JObj [(''prompt'', JStr ''Compare {{output}}'')]) = None
   \<and> createConsistencyAssertion ZString ''rubric'' ''openai:gpt'' (\<lambda>i c. Inr i)
        (JObj [(''prompt'', JStr ''Compare {{output}}'')]) []
      = ([], Inl (Error ''Invalid LLM Rubric arguments''))
   \<and> createConsistencyAssertion ZString ''rubric'' ''openai:gpt'' (\<lambda>i c. Inr i)
        (JObj [(''criteria'', JStr ''same wording'')]) []
      = ([GetProvider ''openai:gpt'' (JObj [])],
         Inr \<lparr>ca_model = ''openai:gpt'', ca_prompt = ''rubric'', ca_criteria = ''same wording'',
              ca_testVars = []\<rparr>)"
  using configuration_errors_first
    [of example_world None "example_config [] []" ZString "JObj [(''prompt'', JStr ''Compare {{output}}'')]"
        "''rubric''" "''openai:gpt''" "\<lambda>i c. Inr i" "[]"]
  by (simp add: argsSchema_def createConsistencyAssertion_def)

subsection \<open>The consistency assertion\<close>

text \<open>
  Claim C5, as stated, fails: a plain-string output that is the empty string is not
  wrapped into a one-element list; it becomes the empty list, as a missing output does.
\<close>

theorem output_parts_empty_string_counterexample:
  "\<not> (\<forall>results. \<forall>i < length results. \<forall>s.
        out_value (results ! i) = Some (OutputString s) \<longrightarrow> row_outputs results ! i = [StringPart s])"
proof
  assume a: "\<forall>results. \<forall>i < length results. \<forall>s.
        out_value (results ! i) = Some (OutputString s) \<longrightarrow> row_outputs results ! i = [StringPart s]"
  let ?r = "new_result\<lparr>out_value := Some (OutputString [])\<rparr>"
  from a have "row_outputs [?r] ! 0 = [StringPart []]"
    by (simp add: new_result_def)
  then show False
    by (simp add: row_outputs_def new_result_def)
qed

lemma map_of_spread_other:
  "k \<notin> fst ` set b \<Longrightarrow> map_of (spread a b) k = map_of a k"
proof (induction b arbitrary: a)
  case Nil
  then show ?case by (simp add: spread_def)
next
  case (Cons kv b)
  obtain k' v where kv: "kv = (k', v)" by (cases kv)
  with Cons.prems have ne: "k \<noteq> k'" and rest: "k \<notin> fst ` set b" by auto
  have "map_of (spread a (kv # b)) k = map_of (spread (AList.update k' v a) b) k"
    by (simp add: spread_def kv)
  also have "\<dots> = map_of (AList.update k' v a) k"
    using Cons.IH[OF rest] .
  also have "\<dots> = map_of a k"
    using ne by (simp add: update_conv')
  finally show ?case .
qed

text \<open>
  Claim C5, amended. The outputs handed to the rubric have one entry per result: the
  empty list for a result whose output is missing or is the empty string, the one-element
  list of the string for a non-empty plain string, and the parts unchanged for a
  multi-part output. They are the variable \<^verbatim>\<open>output\<close> of the rubric environment unless
  the test has a variable of that name.
\<close>

theorem row_outputs_entries:
  "length (row_outputs results) = length results
   \<and> (\<forall>i < length results.
        (out_value (results ! i) = None \<longrightarrow> row_outputs results ! i = [])
      \<and> (out_value (results ! i) = Some (OutputString []) \<longrightarrow> row_outputs results ! i = [])
      \<and> (\<forall>s. s \<noteq> [] \<and> out_value (results ! i) = Some (OutputString s)
             \<longrightarrow> row_outputs results ! i = [StringPart s])
      \<and> (\<forall>ps. out_value (results ! i) = Some (OutputParts ps) \<longrightarrow> row_outputs results ! i = ps))
   \<and> (''output'' \<notin> fst ` set (ca_testVars a) \<longrightarrow>
        map_of (rubric_vars a results) ''output'' = Some (Outputs (row_outputs results)))"
proof -
  have "map_of (rubric_vars a results) ''output'' = Some (Outputs (row_outputs results))"
    if "''output'' \<notin> fst ` set (ca_testVars a)"
  proof -
    from that have "''output'' \<notin> fst ` set (map (\<lambda>(k, v). (k, Json v)) (ca_testVars a))"
      by (auto simp: image_iff)
    then show ?thesis
      unfolding rubric_vars_def by (simp add: map_of_spread_other)
  qed
  then show ?thesis
    by (simp add: row_outputs_def)
qed


theorem row_outputs_entries_witness:
  "row_outputs [new_result, new_result\<lparr>out_value := Some (OutputString [])\<rparr>,
                new_result\<lparr>out_value := Some (OutputString ''same'')\<rparr>,
                new_result\<lparr>out_value := Some (OutputParts [StringPart ''a'', BlobPart 3])\<rparr>]
   = [[], [], [StringPart ''same''], [StringPart ''a'', BlobPart 3]]
   \<and> map_of (rubric_vars \<lparr>ca_model = ''m'', ca_prompt = ''p'', ca_criteria = ''c'',
                             ca_testVars = [(''topic'', JStr ''NYC'')]\<rparr>
                 [new_result\<lparr>out_value := Some (OutputString ''same'')\<rparr>]) ''output''
     = Some (Outputs [[StringPart ''same'']])"
  using row_outputs_entries
    [of "[new_result\<lparr>out_value := Some (OutputString ''same'')\<rparr>]"
        "\<lparr>ca_model = ''m'', ca_prompt = ''p'', ca_criteria = ''c'',
          ca_testVars = [(''topic'', JStr ''NYC'')]\<rparr>"]
  by (simp add: row_outputs_def new_result_def)

text \<open>
  Claim C4. When the rubric environment comes to an end with a result from which no text
  can be extracted, or whose text yields no first JSON object that passes the schema of
  an assertion result, the assertion returns, without throwing, one verdict per input
  result, each failing and each with a message that is not empty.
\<close>

theorem rubric_failure_fails_every_position:
  assumes "drain (rubric_env (ca_model a) (ca_prompt a) (rubric_vars a results)) = Some (Inr result)"
    and "extractOutputAsString (out_value result) = None
         \<or> extractOutputAsString (out_value result) = Some []
         \<or> (\<exists>txt. extractOutputAsString (out_value result) = Some txt
               \<and> schema (case extract txt of [] \<Rightarrow> JUndefined | obj # _ \<Rightarrow> obj) = None)"
  shows "\<exists>rs. consistency_run rubric_env extract schema a results = Some (Inr rs)
           \<and> length rs = length results
           \<and> (\<forall>r \<in> set rs. \<not> ar_pass r \<and> (\<exists>m. ar_message r = Some m \<and> m \<noteq> []))"
  using assms
  by (auto simp: consistency_run_def rubric_verdict_def Let_def split: option.splits)

theorem rubric_failure_fails_every_position_witness:
  "consistency_run
     (\<lambda>m p vars. Yield ''The '' (Yield ''outputs'' (Return
        \<lparr>error = None, out_value = Some (OutputString ''The outputs differ''),
         latencyMillis = None, tokenUsage = None\<rparr>)))
     (\<lambda>txt. [])
     (\<lambda>v. case get_prop v ''pass'' of JBool b \<Rightarrow> Some \<lparr>ar_pass = b, ar_message = None\<rparr> | _ \<Rightarrow> None)
     \<lparr>ca_model = ''m'', ca_prompt = ''p'', ca_criteria = ''c'', ca_testVars = []\<rparr>
     [new_result, new_result, new_result]
   = Some (Inr (replicate 3
       \<lparr>ar_pass = False,
        ar_message = Some (''Invalid rubric output: '' @ [CHR 0x22] @ ''The outputs differ'' @ [CHR 0x22])\<rparr>))"
proof -
  have d: "drain (Yield ''The '' (Yield ''outputs'' (Return
        \<lparr>error = None, out_value = Some (OutputString ''The outputs differ''),
         latencyMillis = None, tokenUsage = None\<rparr>)))
     = Some (Inr \<lparr>error = None, out_value = Some (OutputString ''The outputs differ''),
         latencyMillis = None, tokenUsage = None\<rparr>)"
    by (simp add: drain.simps)
  show ?thesis
    using rubric_failure_fails_every_position
      [of "\<lambda>m p vars. Yield ''The '' (Yield ''outputs'' (Return
        \<lparr>error = None, out_value = Some (OutputString ''The outputs differ''),
         latencyMillis = None, tokenUsage = None\<rparr>))"
         "\<lparr>ca_model = ''m'', ca_prompt = ''p'', ca_criteria = ''c'', ca_testVars = []\<rparr>"
         "[new_result, new_result, new_result]"
         "\<lparr>error = None, out_value = Some (OutputString ''The outputs differ''),
         latencyMillis = None, tokenUsage = None\<rparr>"
         "\<lambda>v. case get_prop v ''pass'' of JBool b \<Rightarrow> Some \<lparr>ar_pass = b, ar_message = None\<rparr> | _ \<Rightarrow> None"
         "\<lambda>txt. []"]
      d
    by (simp add: consistency_run_def rubric_verdict_def eval_nat_numeral)
qed

subsection \<open>The completion event of a response stream\<close>

lemma stream_loop_final:
  "stream_loop stream ft fin ys = (ys', Inr (ft', fin')) \<Longrightarrow>
     (fin' = fin \<and> \<not> list_ex is_completed stream)
   \<or> (\<exists>pre ev post completed.
         stream = pre @ Some ev # post \<and> is_completed (Some ev) \<and> \<not> list_ex is_completed post
       \<and> zparse responseCompletedEventSchema ev = Some completed
       \<and> fin' = get_prop completed ''response'')"
proof (induction stream arbitrary: ft fin ys)
  case Nil
  then show ?case by simp
next
  case (Cons item rest)
  from Cons.prems obtain json where item: "item = Some json"
    by (cases item) auto
  let ?ty = "get_prop json ''type''"
  let ?goal = "\<lambda>fin0. (fin' = fin0 \<and> \<not> list_ex is_completed (item # rest))
   \<or> (\<exists>pre ev post completed.
         item # rest = pre @ Some ev # post \<and> is_completed (Some ev) \<and> \<not> list_ex is_completed post
       \<and> zparse responseCompletedEventSchema ev = Some completed
       \<and> fin' = get_prop completed ''response'')"
  have skip: "?goal fin" if nc: "?ty \<noteq> JStr ''response.completed''"
    and rec: "stream_loop rest ft2 fin ys2 = (ys', Inr (ft', fin'))" for ft2 ys2
  proof -
    from Cons.IH[OF rec] show ?thesis
    proof
      assume "fin' = fin \<and> \<not> list_ex is_completed rest"
      with nc show ?thesis by (simp add: item is_completed_def)
    next
      assume "\<exists>pre ev post completed.
         rest = pre @ Some ev # post \<and> is_completed (Some ev) \<and> \<not> list_ex is_completed post
       \<and> zparse responseCompletedEventSchema ev = Some completed
       \<and> fin' = get_prop completed ''response''"
      then obtain pre ev post completed where
        "rest = pre @ Some ev # post" "is_completed (Some ev)" "\<not> list_ex is_completed post"
        "zparse responseCompletedEventSchema ev = Some completed"
        "fin' = get_prop completed ''response''" by blast
      then have "item # rest = (item # pre) @ Some ev # post \<and> is_completed (Some ev)
          \<and> \<not> list_ex is_completed post
          \<and> zparse responseCompletedEventSchema ev = Some completed
          \<and> fin' = get_prop completed ''response''" by simp
      then show ?thesis by blast
    qed
  qed
  consider (delta) "?ty = JStr ''response.output_text.delta''"
    | (refusal) "?ty = JStr ''response.refusal.delta''"
    | (completed) "?ty = JStr ''response.completed''"
    | (error) "?ty = JStr ''response.error''"
    | (failed) "?ty = JStr ''response.failed''"
    | (other) "?ty \<noteq> JStr ''response.output_text.delta''" "?ty \<noteq> JStr ''response.refusal.delta''"
        "?ty \<noteq> JStr ''response.completed''" "?ty \<noteq> JStr ''response.error''"
        "?ty \<noteq> JStr ''response.failed''"
    by blast
  then show ?case
  proof cases
    case delta
    with Cons.prems item obtain chunk where
      "stream_loop rest (ft @ chunk) fin (ys @ [chunk]) = (ys', Inr (ft', fin'))"
      by (cases "extractDeltaOutput json") auto
    with delta show ?thesis by (intro skip) auto
  next
    case refusal
    with Cons.prems item obtain chunk where
      "stream_loop rest (ft @ chunk) fin (ys @ [chunk]) = (ys', Inr (ft', fin'))"
      by (cases "extractRefusalDelta json") auto
    with refusal show ?thesis by (intro skip) auto
  next
    case completed
    with Cons.prems item obtain c where c: "zparse responseCompletedEventSchema json = Some c"
      and rec: "stream_loop rest ft (get_prop c ''response'') ys = (ys', Inr (ft', fin'))"
      by (cases "zparse responseCompletedEventSchema json") auto
    from Cons.IH[OF rec] show ?thesis
    proof
      assume "fin' = get_prop c ''response'' \<and> \<not> list_ex is_completed rest"
      with c completed have "item # rest = [] @ Some json # rest \<and> is_completed (Some json)
          \<and> \<not> list_ex is_completed rest
          \<and> zparse responseCompletedEventSchema json = Some c
          \<and> fin' = get_prop c ''response''"
        by (simp add: item is_completed_def)
      then show ?thesis by blast
    next
      assume "\<exists>pre ev post completed.
         rest = pre @ Some ev # post \<and> is_completed (Some ev) \<and> \<not> list_ex is_completed post
       \<and> zparse responseCompletedEventSchema ev = Some completed
       \<and> fin' = get_prop completed ''response''"
      then obtain pre ev post completed where
        "rest = pre @ Some ev # post" "is_completed (Some ev)" "\<not> list_ex is_completed post"
        "zparse responseCompletedEventSchema ev = Some completed"
        "fin' = get_prop completed ''response''" by blast
      then have "item # rest = (item # pre) @ Some ev # post \<and> is_completed (Some ev)
          \<and> \<not> list_ex is_completed post
          \<and> zparse responseCompletedEventSchema ev = Some completed
          \<and> fin' = get_prop completed ''response''" by simp
      then show ?thesis by blast
    qed
  next
    case error
    with Cons.prems item show ?thesis
      by (auto split: option.splits)
  next
    case failed
    with Cons.prems item show ?thesis
      by (auto split: option.splits)
  next
    case other
    with Cons.prems item have "stream_loop rest ft fin ys = (ys', Inr (ft', fin'))"
      by simp
    with other show ?thesis by (intro skip) auto
  qed
qed


lemma runModel_missing:
  assumes "\<not> list_ex is_completed stream"
  shows "\<exists>ys e. runModel messages (Inr (Some stream)) = (ys, Inl e)"
    and "snd (stream_loop stream [] JUndefined [[]]) = Inr (ft, fin) \<Longrightarrow>
         snd (runModel messages (Inr (Some stream)))
           = Inl (Error ''Failed to run model: missing completion'')"
proof -
  obtain ys r where loop: "stream_loop stream [] JUndefined [[]] = (ys, r)"
    by (cases "stream_loop stream [] JUndefined [[]]")
  have fin: "fin' = JUndefined" if "r = Inr (ft', fin')" for ft' fin'
    using stream_loop_final[of stream "[]" JUndefined "[[]]" ys ft' fin'] loop that assms
    by (auto simp: list_ex_iff)
  show "\<exists>ys e. runModel messages (Inr (Some stream)) = (ys, Inl e)"
  proof (cases r)
    case (Inl e)
    with loop show ?thesis by (simp add: runModel_def)
  next
    case (Inr p)
    obtain ft' fin' where "p = (ft', fin')" by (cases p)
    with Inr fin loop show ?thesis by (simp add: runModel_def)
  qed
  show "snd (runModel messages (Inr (Some stream)))
           = Inl (Error ''Failed to run model: missing completion'')"
    if "snd (stream_loop stream [] JUndefined [[]]) = Inr (ft, fin)"
    using that loop fin[of ft fin] by (simp add: runModel_def)
qed

lemma runModel_returns:
  assumes "runModel messages (Inr (Some stream)) = (ys, Inr r)"
  shows "\<exists>pre ev post completed.
           stream = pre @ Some ev # post \<and> is_completed (Some ev) \<and> \<not> list_ex is_completed post
         \<and> zparse responseCompletedEventSchema ev = Some completed
         \<and> zparse responseSchema (get_prop completed ''response'') = Some (response r)"
proof -
  obtain ys' lr where loop: "stream_loop stream [] JUndefined [[]] = (ys', lr)"
    by (cases "stream_loop stream [] JUndefined [[]]")
  from assms loop obtain ft fin where lr: "lr = Inr (ft, fin)"
    by (cases lr) (auto simp: runModel_def)
  from assms loop lr have tr: "truthy fin"
    by (auto simp: runModel_def split: if_splits)
  from assms loop lr tr obtain parsed where p: "zparse responseSchema fin = Some parsed"
    by (cases "zparse responseSchema fin") (auto simp: runModel_def)
  from assms loop lr tr p have r: "response r = parsed"
    by (auto simp: runModel_def Let_def)
  from tr have "fin \<noteq> JUndefined" by auto
  with stream_loop_final[of stream "[]" JUndefined "[[]]" ys' ft fin] loop lr
  obtain pre ev post completed where
    "stream = pre @ Some ev # post" "is_completed (Some ev)" "\<not> list_ex is_completed post"
    "zparse responseCompletedEventSchema ev = Some completed"
    "fin = get_prop completed ''response''"
    by auto
  with p r show ?thesis by blast
qed

lemma sequence_map_Some:
  "sequence (map f xs) = Some ys \<Longrightarrow> ys = map (\<lambda>x. the (f x)) xs \<and> (\<forall>x \<in> set xs. f x \<noteq> None)"
proof (induction xs arbitrary: ys)
  case Nil
  then show ?case by simp
next
  case (Cons x xs)
  then show ?case
    by (cases "f x") (auto split: option.splits)
qed

lemma zparse_object_field:
  assumes p: "zparse (ZObject shape passthrough) v = Some parsed"
    and d: "distinct (map fst shape)" and k: "(k, z) \<in> set shape"
  shows "zparse z (get_prop v k) = Some (get_prop parsed k)"
proof -
  from p obtain kvs where v: "v = JObj kvs"
    by (cases v) auto
  let ?f = "\<lambda>(k, z). map_option (Pair k) (zparse z (get_prop v k))"
  from p v obtain ps where seq: "sequence (map ?f shape) = Some ps"
    and parsed: "parsed = JObj (filter (\<lambda>(k, r). r \<noteq> JUndefined \<or> k \<in> fst ` set kvs) ps
                  @ (if passthrough then filter (\<lambda>(k, x). k \<notin> fst ` set shape) kvs else []))"
    by (auto split: option.splits)
  from sequence_map_Some[OF seq] have ps: "ps = map (\<lambda>x. the (?f x)) shape"
    and ok: "\<forall>x \<in> set shape. ?f x \<noteq> None" by auto
  from ok k obtain r where r: "zparse z (get_prop v k) = Some r"
    by fastforce
  have ps': "ps = map (\<lambda>(k, z). (k, the (zparse z (get_prop v k)))) shape"
    unfolding ps using ok by (auto simp: case_prod_unfold)
  have keys: "map fst ps = map fst shape"
    by (simp add: ps' case_prod_unfold comp_def)
  have mem: "(k, r) \<in> set ps"
    using k r by (force simp: ps')
  let ?kept = "filter (\<lambda>(k, r). r \<noteq> JUndefined \<or> k \<in> fst ` set kvs) ps"
  let ?extra = "if passthrough then filter (\<lambda>(k, x). k \<notin> fst ` set shape) kvs else []"
  have dk: "distinct (map fst ?kept)"
    using d keys by (simp add: distinct_map_filter)
  have noextra: "map_of ?extra k = None"
  proof (cases passthrough)
    case True
    from k have "k \<in> fst ` set shape" by force
    then have "k \<notin> fst ` set (filter (\<lambda>(k, x). k \<notin> fst ` set shape) kvs)" by force
    with True show ?thesis by (simp add: map_of_eq_None_iff)
  next
    case False
    then show ?thesis by simp
  qed
  have "get_prop parsed k = r"
  proof (cases "r \<noteq> JUndefined \<or> k \<in> fst ` set kvs")
    case True
    with mem have "(k, r) \<in> set ?kept" by simp
    with dk have "map_of ?kept k = Some r" by simp
    then show ?thesis by (simp add: parsed map_add_def)
  next
    case False
    then have r0: "r = JUndefined" and "k \<notin> fst ` set kvs" by auto
    have "map_of ?kept k = None"
    proof (rule ccontr)
      assume "map_of ?kept k \<noteq> None"
      then obtain r' where "(k, r') \<in> set ?kept" by (auto dest: map_of_SomeD)
      then have in_ps: "(k, r') \<in> set ps" and kept: "r' \<noteq> JUndefined \<or> k \<in> fst ` set kvs" by auto
      from d keys have "distinct (map fst ps)" by simp
      with in_ps mem have "r' = r" by (meson eq_key_imp_eq_value)
      with kept False show False by simp
    qed
    with noextra show ?thesis by (simp add: parsed map_add_def r0)
  qed
  with r show ?thesis by simp
qed

lemma zparse_leaf_same:
  "zparse ZString x = Some r \<Longrightarrow> r = x"
  "zparse (ZNullish ZString) x = Some r \<Longrightarrow> r = x"
  "zparse (ZOptional ZInt) x = Some r \<Longrightarrow> r = x"
  by (auto split: if_splits jsval.splits)

lemma responseSchema_keeps:
  assumes "zparse responseSchema payload = Some parsed"
  shows "get_prop parsed ''id'' = get_prop payload ''id''"
    and "get_prop parsed ''output_text'' = get_prop payload ''output_text''"
    and "get_prop (get_prop parsed ''usage'') ''input_tokens''
         = get_prop (get_prop payload ''usage'') ''input_tokens''"
    and "get_prop (get_prop parsed ''usage'') ''output_tokens''
         = get_prop (get_prop payload ''usage'') ''output_tokens''"
    and "get_prop (get_prop parsed ''usage'') ''total_tokens''
         = get_prop (get_prop payload ''usage'') ''total_tokens''"
proof -
  note p = assms[unfolded responseSchema_def]
  have "zparse ZString (get_prop payload ''id'') = Some (get_prop parsed ''id'')"
    by (rule zparse_object_field[OF p]) simp_all
  then show "get_prop parsed ''id'' = get_prop payload ''id''"
    by (rule zparse_leaf_same)
  have "zparse (ZNullish ZString) (get_prop payload ''output_text'') = Some (get_prop parsed ''output_text'')"
    by (rule zparse_object_field[OF p]) simp_all
  then show "get_prop parsed ''output_text'' = get_prop payload ''output_text''"
    by (rule zparse_leaf_same)
  let ?usage = "ZObject [(''input_tokens'', ZOptional ZInt), (''output_tokens'', ZOptional ZInt),
            (''total_tokens'', ZOptional ZInt)] False"
  have u: "zparse (ZOptional ?usage) (get_prop payload ''usage'') = Some (get_prop parsed ''usage'')"
    by (rule zparse_object_field[OF p]) simp_all
  have tok: "get_prop (get_prop parsed ''usage'') k = get_prop (get_prop payload ''usage'') k"
    if k: "(k, ZOptional ZInt) \<in> set [(''input_tokens'', ZOptional ZInt), (''output_tokens'', ZOptional ZInt),
            (''total_tokens'', ZOptional ZInt)]" for k
  proof (cases "get_prop payload ''usage'' = JUndefined")
    case True
    with u show ?thesis by simp
  next
    case False
    with u have "zparse ?usage (get_prop payload ''usage'') = Some (get_prop parsed ''usage'')"
      by simp
    from zparse_object_field[OF this _ k]
    have "zparse (ZOptional ZInt) (get_prop (get_prop payload ''usage'') k)
          = Some (get_prop (get_prop parsed ''usage'') k)" by simp
    then show ?thesis by (rule zparse_leaf_same)
  qed
  show "get_prop (get_prop parsed ''usage'') ''input_tokens''
         = get_prop (get_prop payload ''usage'') ''input_tokens''"
    by (rule tok) simp
  show "get_prop (get_prop parsed ''usage'') ''output_tokens''
         = get_prop (get_prop payload ''usage'') ''output_tokens''"
    by (rule tok) simp
  show "get_prop (get_prop parsed ''usage'') ''total_tokens''
         = get_prop (get_prop payload ''usage'') ''total_tokens''"
    by (rule tok) simp
qed


lemma completed_payload:
  assumes "zparse responseCompletedEventSchema ev = Some completed"
  shows "zparse responseSchema (get_prop ev ''response'') = Some (get_prop completed ''response'')"
  by (rule zparse_object_field[OF assms[unfolded responseCompletedEventSchema_def]]) simp_all

text \<open>
  Claim C8, as stated, fails in its second half: the response returned is not exactly the
  payload of the \<^verbatim>\<open>response.completed\<close> event. The payload goes through the response schema,
  which drops from \<^verbatim>\<open>usage\<close> every key it does not name.
\<close>

theorem response_is_exactly_the_payload_counterexample:
  "\<exists>ys r ev.
      runModel [] (Inr (Some [example_delta ''Hel'', example_delta ''lo'', example_completed]))
        = (ys, Inr r)
    \<and> example_completed = Some ev
    \<and> get_prop (get_prop (get_prop ev ''response'') ''usage'') ''cached'' = JNum 0
    \<and> get_prop (get_prop (response r) ''usage'') ''cached'' = JUndefined
    \<and> response r \<noteq> get_prop ev ''response''"
proof -
  have returned: "runModel [] (Inr (Some [example_delta ''Hel'', example_delta ''lo'', example_completed]))
       = ([[], ''Hel'', ''lo''],
          Inr \<lparr>response =
                 JObj [(''id'', JStr ''resp_1''), (''output_text'', JStr ''Hello!''),
                       (''usage'', JObj [(''input_tokens'', JNum 2), (''output_tokens'', JNum 3)]),
                       (''model'', JStr ''gpt'')],
               session_state = [\<lparr>role = Assistant, content = Text ''Hello!''\<rparr>]\<rparr>)"
    by code_simp
  show ?thesis
    unfolding returned by (simp add: example_completed_def)
qed

text \<open>
  Claim C8, amended. A stream with no \<^verbatim>\<open>response.completed\<close> event makes \<^verbatim>\<open>runModel\<close>
  throw; when the loop comes to the end of such a stream, what is thrown is the missing
  completion. Whenever \<^verbatim>\<open>runModel\<close> returns, the stream has a last \<^verbatim>\<open>response.completed\<close>
  event, and the response returned is the payload of that event as the response schema
  validates it, with the id, the output text and the three token counts of the payload:
  a value that the deltas of the stream have no part in.
\<close>

theorem completed_event_is_authoritative:
  "(\<not> list_ex is_completed stream \<longrightarrow>
      (\<exists>ys e. runModel messages (Inr (Some stream)) = (ys, Inl e))
    \<and> (\<forall>ft fin. snd (stream_loop stream [] JUndefined [[]]) = Inr (ft, fin) \<longrightarrow>
          snd (runModel messages (Inr (Some stream)))
            = Inl (Error ''Failed to run model: missing completion'')))
   \<and> (\<forall>ys r. runModel messages (Inr (Some stream)) = (ys, Inr r) \<longrightarrow>
        (\<exists>pre ev post completed.
           stream = pre @ Some ev # post \<and> is_completed (Some ev) \<and> \<not> list_ex is_completed post
         \<and> zparse responseCompletedEventSchema ev = Some completed
         \<and> zparse responseSchema (get_prop completed ''response'') = Some (response r)
         \<and> get_prop (response r) ''id'' = get_prop (get_prop ev ''response'') ''id''
         \<and> get_prop (response r) ''output_text'' = get_prop (get_prop ev ''response'') ''output_text''
         \<and> get_prop (get_prop (response r) ''usage'') ''input_tokens''
             = get_prop (get_prop (get_prop ev ''response'') ''usage'') ''input_tokens''
         \<and> get_prop (get_prop (response r) ''usage'') ''output_tokens''
             = get_prop (get_prop (get_prop ev ''response'') ''usage'') ''output_tokens''
         \<and> get_prop (get_prop (response r) ''usage'') ''total_tokens''
             = get_prop (get_prop (get_prop ev ''response'') ''usage'') ''total_tokens''))"
proof -
  have ret: "\<exists>pre ev post completed.
           stream = pre @ Some ev # post \<and> is_completed (Some ev) \<and> \<not> list_ex is_completed post
         \<and> zparse responseCompletedEventSchema ev = Some completed
         \<and> zparse responseSchema (get_prop completed ''response'') = Some (response r)
         \<and> get_prop (response r) ''id'' = get_prop (get_prop ev ''response'') ''id''
         \<and> get_prop (response r) ''output_text'' = get_prop (get_prop ev ''response'') ''output_text''
         \<and> get_prop (get_prop (response r) ''usage'') ''input_tokens''
             = get_prop (get_prop (get_prop ev ''response'') ''usage'') ''input_tokens''
         \<and> get_prop (get_prop (response r) ''usage'') ''output_tokens''
             = get_prop (get_prop (get_prop ev ''response'') ''usage'') ''output_tokens''
         \<and> get_prop (get_prop (response r) ''usage'') ''total_tokens''
             = get_prop (get_prop (get_prop ev ''response'') ''usage'') ''total_tokens''"
    if "runModel messages (Inr (Some stream)) = (ys, Inr r)" for ys r
  proof -
    from runModel_returns[OF that] obtain pre ev post completed where
      s: "stream = pre @ Some ev # post" "is_completed (Some ev)" "\<not> list_ex is_completed post"
      and c: "zparse responseCompletedEventSchema ev = Some completed"
      and p: "zparse responseSchema (get_prop completed ''response'') = Some (response r)"
      by blast
    note first = responseSchema_keeps[OF completed_payload[OF c]]
    note second = responseSchema_keeps[OF p]
    from s c p first second show ?thesis
      by (intro exI[of _ pre] exI[of _ ev] exI[of _ post] exI[of _ completed]) simp
  qed
  with runModel_missing[where stream = stream and messages = messages] show ?thesis
    by blast
qed

theorem completed_event_is_authoritative_witness:
  "\<not> list_ex is_completed [example_delta ''Hel'', example_delta ''lo'']
   \<and> runModel [] (Inr (Some [example_delta ''Hel'', example_delta ''lo'']))
       = ([[], ''Hel'', ''lo''], Inl (Error ''Failed to run model: missing completion''))
   \<and> runModel [] (Inr (Some [example_delta ''Hel'', example_delta ''lo'', example_completed]))
       = ([[], ''Hel'', ''lo''],
          Inr \<lparr>response =
                 JObj [(''id'', JStr ''resp_1''), (''output_text'', JStr ''Hello!''),
                       (''usage'', JObj [(''input_tokens'', JNum 2), (''output_tokens'', JNum 3)]),
                       (''model'', JStr ''gpt'')],
               session_state = [\<lparr>role = Assistant, content = Text ''Hello!''\<rparr>]\<rparr>)"
proof -
  have none: "\<not> list_ex is_completed [example_delta ''Hel'', example_delta ''lo'']"
    by (simp add: is_completed_def example_delta_def)
  have missing: "runModel [] (Inr (Some [example_delta ''Hel'', example_delta ''lo'']))
       = ([[], ''Hel'', ''lo''], Inl (Error ''Failed to run model: missing completion''))"
    by code_simp
  have returned: "runModel [] (Inr (Some [example_delta ''Hel'', example_delta ''lo'', example_completed]))
       = ([[], ''Hel'', ''lo''],
          Inr \<lparr>response =
                 JObj [(''id'', JStr ''resp_1''), (''output_text'', JStr ''Hello!''),
                       (''usage'', JObj [(''input_tokens'', JNum 2), (''output_tokens'', JNum 3)]),
                       (''model'', JStr ''gpt'')],
               session_state = [\<lparr>role = Assistant, content = Text ''Hello!''\<rparr>]\<rparr>)"
    by code_simp
  show ?thesis
    using completed_event_is_authoritative
      [where stream = "[example_delta ''Hel'', example_delta ''lo'']" and messages = "[]"]
      none missing returned
    by blast
qed

subsection \<open>Deep equality\<close>

lemma digit_val_char: "n < 10 \<Longrightarrow> digit_val (digit_char n) = n"
  by (auto simp: eval_nat_numeral less_Suc_eq digit_val_def digit_char_def)

lemma nat_of_string_of_nat:
  "foldl (\<lambda>acc c. 10 * acc + digit_val c) 0 (string_of_nat n) = n"
proof (induction n rule: string_of_nat.induct)
  case (1 n)
  show ?case
  proof (cases "n < 10")
    case True
    then show ?thesis
      by (subst string_of_nat.simps) (simp add: digit_val_char)
  next
    case False
    with 1 have "foldl (\<lambda>acc c. 10 * acc + digit_val c) 0 (string_of_nat (n div 10)) = n div 10"
      by simp
    with False show ?thesis
      by (subst string_of_nat.simps) (simp add: digit_val_char)
  qed
qed

lemma inj_string_of_nat: "inj string_of_nat"
  by (rule inj_on_inverseI[where g = "foldl (\<lambda>acc c. 10 * acc + digit_val c) 0"])
     (rule nat_of_string_of_nat)

lemma distinct_keys: "plain a \<Longrightarrow> distinct (keys a)"
  by (cases a) (simp_all add: keys_def distinct_map inj_string_of_nat[THEN inj_on_subset])

lemma in_keys: "(k, v) \<in> set (entries a) \<Longrightarrow> k \<in> set (keys a)"
  unfolding keys_def by (metis fst_conv image_eqI set_map)

lemma js_get_entry: "distinct (keys a) \<Longrightarrow> (k, v) \<in> set (entries a) \<Longrightarrow> js_get a k = v"
  by (simp add: js_get_def keys_def)

lemma plain_entry: "plain a \<Longrightarrow> (k, v) \<in> set (entries a) \<Longrightarrow> plain v"
  by (cases a) (auto dest: set_zip_rightD)

lemma deepEquals_loop_same:
  "\<forall>(k, v) \<in> set es. k \<in> set (keys b) \<and> js_get b k = v \<and> deepEquals v v = Inr True \<Longrightarrow>
   deepEquals_loop es b = Inr True"
  by (induction es) auto

lemma deepEquals_same_entries:
  assumes "plain a" and "\<forall>(k, v) \<in> set (entries a). deepEquals v v = Inr True"
  shows "deepEquals a a = Inr True"
proof -
  have "deepEquals_loop (entries a) a = Inr True"
    using assms in_keys[of _ _ a] js_get_entry[OF distinct_keys[OF assms(1)]]
    by (intro deepEquals_loop_same) auto
  then show ?thesis
    by (cases a) (simp_all add: deepEquals.simps)
qed

text \<open>
  A plain value compares equal to itself, whether or not the two arguments share their
  objects: a configuration that has not changed is never taken for a changed one.
\<close>

lemma deepEquals_refl: "plain a \<Longrightarrow> deepEquals a a = Inr True"
proof (induction a)
  case (JArr xs)
  have "\<forall>(k, v) \<in> set (entries (JArr xs)). deepEquals v v = Inr True"
    using JArr by (auto dest!: set_zip_rightD)
  with JArr.prems show ?case by (rule deepEquals_same_entries)
next
  case (JObj kvs)
  have "\<forall>(k, v) \<in> set (entries (JObj kvs)). deepEquals v v = Inr True"
    using JObj by fastforce
  with JObj.prems show ?case by (rule deepEquals_same_entries)
qed (simp_all add: deepEquals.simps)

text \<open>
  Claim C9 does not hold of \<^verbatim>\<open>deepEquals\<close>. An array and an object with the same keys and
  values compare equal (an empty array and an empty object; an array and the object of
  its indices), so a configuration stored with a list where the loaded one has a map is
  taken for unchanged and the user is not asked. An object compared with \<^verbatim>\<open>null\<close> in the
  second argument throws a \<^verbatim>\<open>TypeError\<close> instead of returning false, and \<^verbatim>\<open>runTests\<close> ends
  with it; with the arguments exchanged the result is false.
\<close>

theorem deepEquals_misses_cases:
  "deepEquals (JObj [(''items'', JArr [])]) (JObj [(''items'', JObj [])]) = Inr True
   \<and> deepEquals (JArr [JStr ''a'', JStr ''b'']) (JObj [(''1'', JStr ''b''), (''0'', JStr ''a'')]) = Inr True
   \<and> deepEquals (JObj [(''items'', JObj [])]) (JObj [(''items'', JNull)]) = Inl TypeError
   \<and> deepEquals (JObj [(''items'', JNull)]) (JObj [(''items'', JObj [])]) = Inr False
   \<and> fst (runTests example_world (Some (example_vars_config (JArr [])))
             (Some \<lparr>getConfig = example_vars_config (JObj [])\<rparr>))
       = [ConfigFetched, ProviderRequested ''echo:model'', Enqueued 0 0, EnvSettled 0 0,
          QueueCompleted, ManagerDestroyed, RunStored ''run-1'', RunPersisted ''run-1'']
   \<and> runTests example_world (Some (example_vars_config (JObj [])))
         (Some \<lparr>getConfig = example_vars_config JNull\<rparr>)
       = ([ConfigFetched], Inl TypeError)"
  by code_simp

end
